theory Spec2Isabelle
  imports Main "HOL-Library.Sublist" "HOL-Library.AList"
begin

section \<open>Python strings\<close>

text \<open>
  Text is a \<^typ>\<open>string\<close>: the characters of a Python \<open>str\<close>, one \<^typ>\<open>char\<close> per
  ASCII character (a character beyond ASCII is the bytes of its UTF-8 form). The
  classifications below (\<open>str.isspace\<close>, the \<open>\s\<close> and \<open>\w\<close> of \<open>re\<close>, the line
  boundaries of \<open>str.splitlines\<close>) are Python's on ASCII; Python's Unicode classes
  beyond ASCII (a no-break space, an accented letter) are not covered.
\<close>

definition is_space :: "char \<Rightarrow> bool" where
  \<comment> \<open>\<open>str.isspace\<close>, the whitespace of \<open>str.strip()\<close> and \<open>str.split()\<close>, and \<open>\s\<close>\<close>
  "is_space c = (c = CHR '' '' \<or> c = CHR 0x09 \<or> c = CHR 0x0A \<or> c = CHR 0x0B \<or> c = CHR 0x0C
     \<or> c = CHR 0x0D \<or> c = CHR 0x1C \<or> c = CHR 0x1D \<or> c = CHR 0x1E \<or> c = CHR 0x1F)"

definition is_linebreak :: "char \<Rightarrow> bool" where
  \<comment> \<open>the one-character line boundaries of \<open>str.splitlines\<close>\<close>
  "is_linebreak c = (c = CHR 0x0A \<or> c = CHR 0x0D \<or> c = CHR 0x0B \<or> c = CHR 0x0C
     \<or> c = CHR 0x1C \<or> c = CHR 0x1D \<or> c = CHR 0x1E)"

definition is_digit :: "char \<Rightarrow> bool" where
  "is_digit c = (48 \<le> (of_char c :: nat) \<and> (of_char c :: nat) \<le> 57)"

definition is_word :: "char \<Rightarrow> bool" where
  \<comment> \<open>\<open>\w\<close>\<close>
  "is_word c = (is_digit c \<or> (97 \<le> (of_char c :: nat) \<and> (of_char c :: nat) \<le> 122)
     \<or> (65 \<le> (of_char c :: nat) \<and> (of_char c :: nat) \<le> 90) \<or> c = CHR ''_'')"

definition py_strip :: "string \<Rightarrow> string" where
  \<comment> \<open>\<open>s.strip()\<close>\<close>
  "py_strip s = rev (dropWhile is_space (rev (dropWhile is_space s)))"

fun split_acc :: "string \<Rightarrow> string \<Rightarrow> string list" where
  "split_acc cur [] = (if cur = [] then [] else [cur])"
| "split_acc cur (c # cs) =
     (if is_space c then (if cur = [] then split_acc [] cs else cur # split_acc [] cs)
      else split_acc (cur @ [c]) cs)"

definition py_split :: "string \<Rightarrow> string list" where
  \<comment> \<open>\<open>s.split()\<close>: the maximal runs of non-whitespace\<close>
  "py_split s = split_acc [] s"

fun split_on_acc :: "char \<Rightarrow> string \<Rightarrow> string \<Rightarrow> string list" where
  "split_on_acc sep cur [] = [cur]"
| "split_on_acc sep cur (c # cs) =
     (if c = sep then cur # split_on_acc sep [] cs else split_on_acc sep (cur @ [c]) cs)"

definition py_split_on :: "char \<Rightarrow> string \<Rightarrow> string list" where
  \<comment> \<open>\<open>s.split(sep)\<close> for a separator of one character\<close>
  "py_split_on sep s = split_on_acc sep [] s"

fun splitlines_acc :: "string \<Rightarrow> string \<Rightarrow> string list" where
  "splitlines_acc cur [] = (if cur = [] then [] else [cur])"
| "splitlines_acc cur [c] = (if is_linebreak c then [cur] else [cur @ [c]])"
| "splitlines_acc cur (c # d # cs) =
     (if c = CHR 0x0D \<and> d = CHR 0x0A then cur # splitlines_acc [] cs
      else if is_linebreak c then cur # splitlines_acc [] (d # cs)
      else splitlines_acc (cur @ [c]) (d # cs))"

definition py_splitlines :: "string \<Rightarrow> string list" where
  \<comment> \<open>\<open>s.splitlines()\<close>: the lines without their boundaries, no empty last line\<close>
  "py_splitlines s = splitlines_acc [] s"

definition py_count :: "string \<Rightarrow> char \<Rightarrow> nat" where
  \<comment> \<open>\<open>s.count(c)\<close> for a substring of one character\<close>
  "py_count s c = length (filter (\<lambda>d. d = c) s)"

fun py_join :: "string \<Rightarrow> string list \<Rightarrow> string" where
  "py_join sep [] = []"
| "py_join sep [x] = x"
| "py_join sep (x # y # xs) = x @ sep @ py_join sep (y # xs)"

function replace_all :: "string \<Rightarrow> string \<Rightarrow> string \<Rightarrow> string" where
  "replace_all old new s =
     (if old = [] \<or> s = [] then s
      else if prefix old s then new @ replace_all old new (drop (length old) s)
      else hd s # replace_all old new (tl s))"
  by pat_completeness auto
termination
  by (relation "measure (\<lambda>(old, new, s). length s)") auto

definition py_replace :: "string \<Rightarrow> string \<Rightarrow> string \<Rightarrow> string" where
  \<comment> \<open>\<open>s.replace(old, new)\<close>: the occurrences of \<open>old\<close>, found left to right without
      overlap; an empty \<open>old\<close> matches before every character and at the end\<close>
  "py_replace s old new =
     (if old = [] then new @ concat (map (\<lambda>c. c # new) s) else replace_all old new s)"

section \<open>Integers and their decimal form\<close>

datatype error =
    KeyError string
  | MissingVariables "string list"
  | UnknownProvider string
  | InvalidTemplate "string list"
  | IntegrityError
  | ValueError
  | JSONDecodeError
  | TypeError

definition digit_char :: "nat \<Rightarrow> char" where
  "digit_char n = ''0123456789'' ! n"

function str_nat :: "nat \<Rightarrow> string" where
  "str_nat n = (if n < 10 then [digit_char n] else str_nat (n div 10) @ [digit_char (n mod 10)])"
  by pat_completeness auto
termination
  by (relation "measure id") auto

definition str_int :: "int \<Rightarrow> string" where
  \<comment> \<open>\<open>str(i)\<close> of an \<open>int\<close>\<close>
  "str_int i = (if i < 0 then CHR ''-'' # str_nat (nat (- i)) else str_nat (nat i))"

definition digit_val :: "char \<Rightarrow> nat" where
  "digit_val c = of_char c - 48"

definition digits_val :: "string \<Rightarrow> nat" where
  "digits_val s = foldl (\<lambda>a c. 10 * a + digit_val c) 0 s"

fun digits_ok :: "string \<Rightarrow> bool" where
  "digits_ok [] = False"
| "digits_ok [c] = is_digit c"
| "digits_ok (c # d # cs) =
     (is_digit c \<and> (if d = CHR ''_'' then digits_ok cs else digits_ok (d # cs)))"

definition is_cspace :: "char \<Rightarrow> bool" where
  \<comment> \<open>the whitespace \<open>int()\<close> skips around an ASCII numeral\<close>
  "is_cspace c = (c = CHR '' '' \<or> c = CHR 0x09 \<or> c = CHR 0x0A \<or> c = CHR 0x0B \<or> c = CHR 0x0C
     \<or> c = CHR 0x0D)"

definition py_int :: "string \<Rightarrow> error + int" where
  \<comment> \<open>\<open>int(s)\<close> in base ten: whitespace around, an optional sign, digits with single
      underscores between them; anything else raises \<open>ValueError\<close>. The interpreter's
      limit on the number of digits is not modelled.\<close>
  "py_int s =
     (let t = rev (dropWhile is_cspace (rev (dropWhile is_cspace s)));
          neg = (t \<noteq> [] \<and> hd t = CHR ''-'');
          body = (if t \<noteq> [] \<and> (hd t = CHR ''-'' \<or> hd t = CHR ''+'') then tl t else t)
      in if digits_ok body
         then Inr ((if neg then - 1 else 1) * int (digits_val (filter (\<lambda>c. c \<noteq> CHR ''_'') body)))
         else Inl ValueError)"

section \<open>Values\<close>

text \<open>
  A variable's default and a caller's value are untyped (\<open>Any\<close>). The values modelled are
  those \<open>json.dumps\<close> writes, so that a module holding them can be stored: \<open>None\<close>,
  booleans, integers, strings, lists, tuples, and dictionaries (an association list in
  insertion order) whose keys are strings, integers, booleans or \<open>None\<close>.
  Floating-point numbers are left out.
\<close>

datatype pykey =
    KStr string
  | KInt int
  | KBool bool
  | KNone

datatype pyval =
    VNone
  | VBool bool
  | VInt int
  | VStr string
  | VList "pyval list"
  | VTuple "pyval list"
  | VDict "(pykey \<times> pyval) list"

definition dict_set :: "(string \<times> 'v) list \<Rightarrow> string \<Rightarrow> 'v \<Rightarrow> (string \<times> 'v) list" where
  \<comment> \<open>\<open>d[k] = v\<close> on a dictionary in insertion order: a key already there keeps its place\<close>
  "dict_set d k v = AList.update k v d"

definition dict_update :: "(string \<times> 'v) list \<Rightarrow> (string \<times> 'v) list \<Rightarrow> (string \<times> 'v) list" where
  \<comment> \<open>\<open>d.update(items)\<close>\<close>
  "dict_update d items = fold (\<lambda>kv d'. dict_set d' (fst kv) (snd kv)) items d"

definition hex_char :: "nat \<Rightarrow> char" where
  "hex_char n = ''0123456789abcdef'' ! n"

definition repr_char :: "char \<Rightarrow> char \<Rightarrow> string" where
  "repr_char q c =
     (if c = q \<or> c = CHR 0x5C then [CHR 0x5C, c]
      else if c = CHR 0x09 then [CHR 0x5C, CHR ''t'']
      else if c = CHR 0x0A then [CHR 0x5C, CHR ''n'']
      else if c = CHR 0x0D then [CHR 0x5C, CHR ''r'']
      else if (of_char c :: nat) < 32 \<or> c = CHR 0x7F
        then [CHR 0x5C, CHR ''x'', hex_char ((of_char c :: nat) div 16), hex_char ((of_char c :: nat) mod 16)]
      else [c])"

definition repr_str :: "string \<Rightarrow> string" where
  \<comment> \<open>\<open>repr(s)\<close> of a \<open>str\<close>: single quotes, unless the text has one and no double quote\<close>
  "repr_str s =
     (let q = (if CHR 0x27 \<in> set s \<and> CHR 0x22 \<notin> set s then CHR 0x22 else CHR 0x27)
      in q # concat (map (repr_char q) s) @ [q])"

fun key_repr :: "pykey \<Rightarrow> string" where
  "key_repr (KStr s) = repr_str s"
| "key_repr (KInt i) = str_int i"
| "key_repr (KBool b) = (if b then ''True'' else ''False'')"
| "key_repr KNone = ''None''"

fun py_repr :: "pyval \<Rightarrow> string" where
  "py_repr VNone = ''None''"
| "py_repr (VBool b) = (if b then ''True'' else ''False'')"
| "py_repr (VInt i) = str_int i"
| "py_repr (VStr s) = repr_str s"
| "py_repr (VList xs) = ''['' @ py_join '', '' (map py_repr xs) @ '']''"
| "py_repr (VTuple xs) =
     ''('' @ py_join '', '' (map py_repr xs) @ (if length xs = 1 then '','' else []) @ '')''"
| "py_repr (VDict kvs) =
     ''{'' @ py_join '', '' (map (\<lambda>kv. key_repr (fst kv) @ '': '' @ py_repr (snd kv)) kvs) @ ''}''"

definition py_str :: "pyval \<Rightarrow> string" where
  \<comment> \<open>\<open>str(v)\<close>: a string is itself, anything else its \<open>repr\<close>\<close>
  "py_str v = (case v of VStr s \<Rightarrow> s | _ \<Rightarrow> py_repr v)"

section \<open>The data model\<close>

record TerraformVariable =
  var_name :: string
  var_type :: string
  var_description :: string
  var_default :: pyval
  var_required :: bool
  var_sensitive :: bool

record TerraformOutput =
  out_name :: string
  out_description :: string
  out_value_expression :: string
  out_sensitive :: bool

record TerraformExample =
  ex_title :: string
  ex_description :: string
  ex_hcl_code :: string

record TerraformModule =
  mod_id :: string
  mod_name :: string
  provider :: string
  resource_type :: string
  version :: string
  description :: string
  hcl_template :: string
  variables :: "TerraformVariable list"
  outputs :: "TerraformOutput list"
  examples :: "TerraformExample list"
  tags :: "string list"
  created_at :: string
  download_count :: int

record ValidationResult =
  valid :: bool
  errors :: "string list"
  warnings :: "string list"

subsection \<open>Version bump\<close>

definition bump_version :: "TerraformModule \<Rightarrow> string \<Rightarrow> error + (TerraformModule \<times> string)" where
  \<comment> \<open>the module with its new version, and the string returned; \<open>ValueError\<close> when the
      version does not split into three parts that \<open>int\<close> reads\<close>
  "bump_version m part =
     (case py_split_on CHR ''.'' (version m) of
        [a, b, c] \<Rightarrow>
          (case py_int a of Inl e \<Rightarrow> Inl e | Inr major \<Rightarrow>
           case py_int b of Inl e \<Rightarrow> Inl e | Inr minor \<Rightarrow>
           case py_int c of Inl e \<Rightarrow> Inl e | Inr patch \<Rightarrow>
             let (major', minor', patch') =
                   (if part = ''major'' then (major + 1, 0, 0)
                    else if part = ''minor'' then (major, minor + 1, 0)
                    else (major, minor, patch + 1));
                 v = str_int major' @ ''.'' @ str_int minor' @ ''.'' @ str_int patch'
             in Inr (m\<lparr>version := v\<rparr>, v))
      | _ \<Rightarrow> Inl ValueError)"

section \<open>Pattern matching\<close>

text \<open>
  The regular expressions of the source are translated by hand. Each of them is
  deterministic: every repetition (\<open>\s+\<close>, \<open>[\w-]+\<close>, \<open>[^}]*\<close>) is followed by a
  character outside the repeated class, so the only candidate match takes the longest
  run, and backtracking never finds another.
\<close>

fun finditer :: "(string \<Rightarrow> ('a \<times> nat) option) \<Rightarrow> nat \<Rightarrow> string \<Rightarrow> 'a list" where
  \<comment> \<open>the matches of a pattern, left to right without overlap: \<open>at s\<close> is the match at
      the start of \<open>s\<close> with its length; after a match of \<open>n\<close> characters the scan skips
      the \<open>n - 1\<close> that follow\<close>
  "finditer at skip [] = []"
| "finditer at skip (c # cs) =
     (if 0 < skip then finditer at (skip - 1) cs
      else case at (c # cs) of
             Some (m, n) \<Rightarrow> m # finditer at (n - 1) cs
           | None \<Rightarrow> finditer at 0 cs)"

fun contains :: "string \<Rightarrow> string \<Rightarrow> bool" where
  \<comment> \<open>\<open>sub in s\<close>\<close>
  "contains sub [] = (sub = [])"
| "contains sub (c # cs) = (prefix sub (c # cs) \<or> contains sub cs)"

definition is_label :: "char \<Rightarrow> bool" where
  \<comment> \<open>\<open>[\w-]\<close>\<close>
  "is_label c = (is_word c \<or> c = CHR ''-'')"

definition em_dash :: string where
  "em_dash = [CHR 0xE2, CHR 0x80, CHR 0x94]"

definition box_rule :: "nat \<Rightarrow> string" where
  \<comment> \<open>a run of the box-drawing character U+2500\<close>
  "box_rule n = concat (replicate n [CHR 0xE2, CHR 0x94, CHR 0x80])"

definition block_keywords :: "string list" where
  "block_keywords = [''resource'', ''data'', ''module'', ''locals'', ''provider'', ''terraform'']"

definition block_at :: "string \<Rightarrow> bool" where
  \<comment> \<open>\<open>(resource|data|module|locals|provider|terraform)\s+"[\w-]+"\s*\<close> at the start of \<open>s\<close>\<close>
  "block_at s =
     list_ex (\<lambda>kw. prefix kw s \<and>
        (let r1 = drop (length kw) s; r2 = dropWhile is_space r1
         in takeWhile is_space r1 \<noteq> [] \<and> r2 \<noteq> [] \<and> hd r2 = CHR 0x22 \<and>
            (let r3 = dropWhile is_label (tl r2)
             in takeWhile is_label (tl r2) \<noteq> [] \<and> r3 \<noteq> [] \<and> hd r3 = CHR 0x22)))
       block_keywords"

fun block_search :: "bool \<Rightarrow> string \<Rightarrow> bool" where
  \<comment> \<open>\<open>block_pattern.search\<close>; the flag says that the character before is a word
      character, where \<open>\b\<close> fails before a keyword\<close>
  "block_search prev_word [] = False"
| "block_search prev_word (c # cs) =
     ((\<not> prev_word \<and> block_at (c # cs)) \<or> block_search (is_word c) cs)"

definition interpolation_namespaces :: "string list" where
  "interpolation_namespaces =
     [''var.'', ''local.'', ''module.'', ''data.'', ''each.'', ''path.'', ''terraform.'']"

definition bad_ref_at :: "string \<Rightarrow> (string \<times> nat) option" where
  \<comment> \<open>\<open>\$\{(?!var\.|local\.|module\.|data\.|each\.|path\.|terraform\.)[^}]+\}\<close> at the start
      of \<open>s\<close>: the text matched and its length\<close>
  "bad_ref_at s =
     (if \<not> prefix ''${'' s then None
      else let r = drop 2 s;
               body = takeWhile (\<lambda>c. c \<noteq> CHR ''}'') r;
               rest = dropWhile (\<lambda>c. c \<noteq> CHR ''}'') r
           in if list_ex (\<lambda>ns. prefix ns r) interpolation_namespaces \<or> body = [] \<or> rest = []
              then None
              else Some (''${'' @ body @ ''}'', length body + 3))"

definition resource_at :: "string \<Rightarrow> ((string \<times> string \<times> string) \<times> nat) option" where
  \<comment> \<open>\<open>resource\s+"([\w]+)"\s+"([\w-]+)"\s*\{([^}]*)\}\<close> at the start of \<open>s\<close>: the three
      groups and the length of the match\<close>
  "resource_at s =
     (if \<not> prefix ''resource'' s then None
      else let r1 = drop 8 s; r2 = dropWhile is_space r1
      in if takeWhile is_space r1 = [] \<or> r2 = [] \<or> hd r2 \<noteq> CHR 0x22 then None
      else let rtype = takeWhile is_word (tl r2); r3 = dropWhile is_word (tl r2)
      in if rtype = [] \<or> r3 = [] \<or> hd r3 \<noteq> CHR 0x22 then None
      else let r4 = dropWhile is_space (tl r3)
      in if takeWhile is_space (tl r3) = [] \<or> r4 = [] \<or> hd r4 \<noteq> CHR 0x22 then None
      else let rname = takeWhile is_label (tl r4); r5 = dropWhile is_label (tl r4)
      in if rname = [] \<or> r5 = [] \<or> hd r5 \<noteq> CHR 0x22 then None
      else let r6 = dropWhile is_space (tl r5)
      in if r6 = [] \<or> hd r6 \<noteq> CHR ''{'' then None
      else let rbody = takeWhile (\<lambda>c. c \<noteq> CHR ''}'') (tl r6);
               r7 = dropWhile (\<lambda>c. c \<noteq> CHR ''}'') (tl r6)
      in if r7 = [] then None
      else Some ((rtype, rname, rbody), length s - length (tl r7)))"

definition resource_blocks :: "string \<Rightarrow> (string \<times> string \<times> string) list" where
  \<comment> \<open>\<open>list(resource_re.finditer(rendered))\<close>, each match as its groups\<close>
  "resource_blocks s = finditer resource_at 0 s"

section \<open>Structural validation\<close>

definition resource_lines :: "string \<Rightarrow> string list" where
  "resource_lines hcl_string =
     map py_strip (filter (\<lambda>l. prefix ''resource'' (py_strip l)) (py_splitlines hcl_string))"

definition missing_labels :: "string \<Rightarrow> string" where
  "missing_labels rl = ''resource block missing labels: '' @ [CHR 0x27] @ rl @ [CHR 0x27]"

definition validate_hcl :: "string \<Rightarrow> ValidationResult" where
  "validate_hcl hcl_string =
     (let braces = (if py_count hcl_string CHR ''{'' \<noteq> py_count hcl_string CHR ''}''
                    then [''Unbalanced curly braces { }''] else []);
          brackets = (if py_count hcl_string CHR ''['' \<noteq> py_count hcl_string CHR '']''
                      then [''Unbalanced square brackets [ ]''] else []);
          parens = (if py_count hcl_string CHR ''('' \<noteq> py_count hcl_string CHR '')''
                    then [''Unbalanced parentheses ( )''] else []);
          no_block = (if \<not> block_search False hcl_string
                      then [''No resource/data/module block found '' @ em_dash
                            @ '' is this intentional?'']
                      else []);
          labels = concat (map (\<lambda>rl. if length (py_split rl) < 3 then [missing_labels rl] else [])
                     (resource_lines hcl_string));
          bad_refs = map (\<lambda>br. ''Suspicious interpolation (not var/local/module/data): '' @ br)
                       (finditer bad_ref_at 0 hcl_string);
          double_dollar = (if contains ''$${'' hcl_string
                           then [''Found $${} '' @ em_dash
                                 @ '' use $${ only for literal dollar sign escape'']
                           else []);
          empty = (if py_strip hcl_string = [] then [''HCL string is empty''] else []);
          errs = braces @ brackets @ parens @ labels @ empty
      in \<lparr>valid = (errs = []), errors = errs, warnings = no_block @ bad_refs @ double_dollar\<rparr>)"

section \<open>JSON text\<close>

text \<open>
  The store keeps the collection-valued fields as the text \<open>json.dumps\<close> writes and
  \<open>json.loads\<close> reads. \<open>json_dumps\<close> is \<open>json.dumps\<close> with its defaults (separators
  \<open>", "\<close> and \<open>": "\<close>, escapes for the quote, the backslash and the control characters);
  for a character beyond ASCII it writes the bytes through where Python writes the
  \<open>\u\<close> escape of the code point, two spellings that \<open>json.loads\<close> reads as the same string.
  The reader has no floating-point numbers: it refuses a number with a fraction or an
  exponent, \<open>NaN\<close> and \<open>Infinity\<close>.
\<close>

definition json_esc_char :: "char \<Rightarrow> string" where
  "json_esc_char c =
     (if c = CHR 0x22 then [CHR 0x5C, CHR 0x22]
      else if c = CHR 0x5C then [CHR 0x5C, CHR 0x5C]
      else if c = CHR 0x0A then [CHR 0x5C, CHR ''n'']
      else if c = CHR 0x0D then [CHR 0x5C, CHR ''r'']
      else if c = CHR 0x09 then [CHR 0x5C, CHR ''t'']
      else if c = CHR 0x0C then [CHR 0x5C, CHR ''f'']
      else if c = CHR 0x08 then [CHR 0x5C, CHR ''b'']
      else if (of_char c :: nat) < 32 \<or> c = CHR 0x7F
        then [CHR 0x5C, CHR ''u'', CHR ''0'', CHR ''0'',
              hex_char ((of_char c :: nat) div 16), hex_char ((of_char c :: nat) mod 16)]
      else [c])"

definition json_str :: "string \<Rightarrow> string" where
  "json_str s = CHR 0x22 # concat (map json_esc_char s) @ [CHR 0x22]"

fun key_text :: "pykey \<Rightarrow> string" where
  \<comment> \<open>the string \<open>json.dumps\<close> writes for a key\<close>
  "key_text (KStr s) = s"
| "key_text (KInt i) = str_int i"
| "key_text (KBool b) = (if b then ''true'' else ''false'')"
| "key_text KNone = ''null''"

fun json_dumps :: "pyval \<Rightarrow> string" where
  \<comment> \<open>a tuple is written as a list, and every key as a string\<close>
  "json_dumps VNone = ''null''"
| "json_dumps (VBool b) = (if b then ''true'' else ''false'')"
| "json_dumps (VInt i) = str_int i"
| "json_dumps (VStr s) = json_str s"
| "json_dumps (VList xs) = ''['' @ py_join '', '' (map json_dumps xs) @ '']''"
| "json_dumps (VTuple xs) = ''['' @ py_join '', '' (map json_dumps xs) @ '']''"
| "json_dumps (VDict kvs) =
     ''{'' @ py_join '', '' (map (\<lambda>kv. json_str (key_text (fst kv)) @ '': '' @ json_dumps (snd kv)) kvs)
     @ ''}''"

definition json_ws :: "char \<Rightarrow> bool" where
  "json_ws c = (c = CHR '' '' \<or> c = CHR 0x09 \<or> c = CHR 0x0A \<or> c = CHR 0x0D)"

definition skip_ws :: "string \<Rightarrow> string" where
  "skip_ws s = dropWhile json_ws s"

definition hex_val :: "char \<Rightarrow> nat option" where
  "hex_val c =
     (let n = (of_char c :: nat)
      in if 48 \<le> n \<and> n \<le> 57 then Some (n - 48)
         else if 97 \<le> n \<and> n \<le> 102 then Some (n - 87)
         else if 65 \<le> n \<and> n \<le> 70 then Some (n - 55)
         else None)"

definition hex4 :: "string \<Rightarrow> nat option" where
  \<comment> \<open>the code point of the four hexadecimal digits after \<open>\u\<close>\<close>
  "hex4 s =
     (case map hex_val (take 4 s) of
        [Some a, Some b, Some c, Some d] \<Rightarrow> Some (((a * 16 + b) * 16 + c) * 16 + d)
      | _ \<Rightarrow> None)"

definition utf8 :: "nat \<Rightarrow> string option" where
  \<comment> \<open>the text of a code point below \<open>0x10000\<close>; a surrogate (the half of a pair for a
      code point above) is not modelled\<close>
  "utf8 n =
     (if n < 128 then Some [char_of n]
      else if n < 2048 then Some [char_of (192 + n div 64), char_of (128 + n mod 64)]
      else if 55296 \<le> n \<and> n < 57344 then None
      else Some [char_of (224 + n div 4096), char_of (128 + (n div 64) mod 64),
                 char_of (128 + n mod 64)])"

definition unescape :: "char \<Rightarrow> char option" where
  "unescape e =
     (if e = CHR 0x22 \<or> e = CHR 0x5C \<or> e = CHR ''/'' then Some e
      else if e = CHR ''b'' then Some (CHR 0x08)
      else if e = CHR ''f'' then Some (CHR 0x0C)
      else if e = CHR ''n'' then Some (CHR 0x0A)
      else if e = CHR ''r'' then Some (CHR 0x0D)
      else if e = CHR ''t'' then Some (CHR 0x09)
      else None)"

function scan_string :: "string \<Rightarrow> string \<Rightarrow> (string \<times> string) option" where
  \<comment> \<open>the string that starts after an opening quote, and the text after its closing quote\<close>
  "scan_string acc s =
     (if s = [] then None
      else if hd s = CHR 0x22 then Some (acc, tl s)
      else if hd s = CHR 0x5C then
        (if tl s = [] then None
         else if hd (tl s) = CHR ''u'' then
           (case hex4 (drop 2 s) of
              None \<Rightarrow> None
            | Some n \<Rightarrow> (case utf8 n of
                          None \<Rightarrow> None
                        | Some t \<Rightarrow> scan_string (acc @ t) (drop 6 s)))
         else (case unescape (hd (tl s)) of
                 None \<Rightarrow> None
               | Some c \<Rightarrow> scan_string (acc @ [c]) (drop 2 s)))
      else if (of_char (hd s) :: nat) < 32 then None
      else scan_string (acc @ [hd s]) (tl s))"
  by pat_completeness auto
termination
  by (relation "measure (\<lambda>(acc, s). length s)") auto

definition scan_number :: "string \<Rightarrow> (pyval \<times> string) option" where
  \<comment> \<open>\<open>-?(0|[1-9][0-9]*)\<close>, an integer unless a fraction or an exponent follows\<close>
  "scan_number s =
     (let neg = (s \<noteq> [] \<and> hd s = CHR ''-'');
          t = (if neg then tl s else s);
          ds = (if t \<noteq> [] \<and> hd t = CHR ''0'' then ''0'' else takeWhile is_digit t);
          r = drop (length ds) t;
          frac = (r \<noteq> [] \<and> hd r = CHR ''.'' \<and> tl r \<noteq> [] \<and> is_digit (hd (tl r)));
          e = (if r \<noteq> [] \<and> (hd r = CHR ''e'' \<or> hd r = CHR ''E'') then tl r else []);
          e' = (if e \<noteq> [] \<and> (hd e = CHR ''+'' \<or> hd e = CHR ''-'') then tl e else e);
          expo = (e' \<noteq> [] \<and> is_digit (hd e'))
      in if ds = [] \<or> frac \<or> expo then None
         else Some (VInt ((if neg then - 1 else 1) * int (digits_val ds)), r))"

fun parse_value :: "nat \<Rightarrow> string \<Rightarrow> (pyval \<times> string) option"
  and parse_elems :: "nat \<Rightarrow> pyval list \<Rightarrow> string \<Rightarrow> (pyval list \<times> string) option"
  and parse_members ::
    "nat \<Rightarrow> (string \<times> pyval) list \<Rightarrow> string \<Rightarrow> ((string \<times> pyval) list \<times> string) option"
where
  "parse_value 0 s = None"
| "parse_value (Suc n) s =
     (if s = [] then None
      else if hd s = CHR 0x22 then
        (case scan_string [] (tl s) of None \<Rightarrow> None | Some (t, r) \<Rightarrow> Some (VStr t, r))
      else if hd s = CHR ''{'' then
        (let r = skip_ws (tl s)
         in if r \<noteq> [] \<and> hd r = CHR ''}'' then Some (VDict [], tl r)
            else (case parse_members n [] r of
                    None \<Rightarrow> None
                  | Some (kvs, r') \<Rightarrow>
                      Some (VDict (map (\<lambda>kv. (KStr (fst kv), snd kv)) (dict_update [] kvs)), r')))
      else if hd s = CHR ''['' then
        (let r = skip_ws (tl s)
         in if r \<noteq> [] \<and> hd r = CHR '']'' then Some (VList [], tl r)
            else (case parse_elems n [] r of
                    None \<Rightarrow> None
                  | Some (xs, r') \<Rightarrow> Some (VList xs, r')))
      else if prefix ''null'' s then Some (VNone, drop 4 s)
      else if prefix ''true'' s then Some (VBool True, drop 4 s)
      else if prefix ''false'' s then Some (VBool False, drop 5 s)
      else scan_number s)"
| "parse_elems 0 acc s = None"
| "parse_elems (Suc n) acc s =
     (case parse_value n s of
        None \<Rightarrow> None
      | Some (v, r) \<Rightarrow>
          (let r1 = skip_ws r
           in if r1 \<noteq> [] \<and> hd r1 = CHR '']'' then Some (acc @ [v], tl r1)
              else if r1 \<noteq> [] \<and> hd r1 = CHR '','' then parse_elems n (acc @ [v]) (skip_ws (tl r1))
              else None))"
| "parse_members 0 acc s = None"
| "parse_members (Suc n) acc s =
     (if s = [] \<or> hd s \<noteq> CHR 0x22 then None
      else (case scan_string [] (tl s) of
              None \<Rightarrow> None
            | Some (k, r) \<Rightarrow>
                (let r1 = skip_ws r
                 in if r1 = [] \<or> hd r1 \<noteq> CHR '':'' then None
                    else (case parse_value n (skip_ws (tl r1)) of
                            None \<Rightarrow> None
                          | Some (v, r2) \<Rightarrow>
                              (let r3 = skip_ws r2
                               in if r3 \<noteq> [] \<and> hd r3 = CHR ''}'' then Some (acc @ [(k, v)], tl r3)
                                  else if r3 \<noteq> [] \<and> hd r3 = CHR '',''
                                    then parse_members n (acc @ [(k, v)]) (skip_ws (tl r3))
                                  else None)))))"

definition json_loads :: "string \<Rightarrow> error + pyval" where
  \<comment> \<open>\<open>json.loads\<close>: one value with whitespace around it, and nothing after. The
      recursion of the reader is bounded by the length of the text.\<close>
  "json_loads s =
     (case parse_value (Suc (length s)) (skip_ws s) of
        None \<Rightarrow> Inl JSONDecodeError
      | Some (v, r) \<Rightarrow> if skip_ws r = [] then Inr v else Inl JSONDecodeError)"

section \<open>The store\<close>

text \<open>
  The table \<open>modules\<close> is the list of its rows, a new row going to the end. Every column is written by \<open>_save\<close> from a typed module, so no column is
  \<open>NULL\<close>, and the \<open>or\<close> fallbacks of \<open>_row_to_module\<close> only replace an empty text. The
  fields read back are typed as the dataclasses declare them: a stored value of another
  type, which Python would keep as it is, is outside the model and reported as \<open>TypeError\<close>.
\<close>

record Row =
  row_id :: string
  row_name :: string
  row_provider :: string
  row_resource_type :: string
  row_version :: string
  row_description :: string
  row_hcl_template :: string
  row_variables :: string
  row_outputs :: string
  row_examples :: string
  row_tags :: string
  row_created_at :: string
  row_download_count :: int

definition variable_dict :: "TerraformVariable \<Rightarrow> pyval" where
  \<comment> \<open>\<open>asdict(v)\<close>\<close>
  "variable_dict v =
     VDict [(KStr ''name'', VStr (var_name v)), (KStr ''type'', VStr (var_type v)),
            (KStr ''description'', VStr (var_description v)), (KStr ''default'', var_default v),
            (KStr ''required'', VBool (var_required v)),
            (KStr ''sensitive'', VBool (var_sensitive v))]"

definition output_dict :: "TerraformOutput \<Rightarrow> pyval" where
  "output_dict o' =
     VDict [(KStr ''name'', VStr (out_name o')), (KStr ''description'', VStr (out_description o')),
            (KStr ''value_expression'', VStr (out_value_expression o')),
            (KStr ''sensitive'', VBool (out_sensitive o'))]"

definition example_dict :: "TerraformExample \<Rightarrow> pyval" where
  "example_dict e =
     VDict [(KStr ''title'', VStr (ex_title e)), (KStr ''description'', VStr (ex_description e)),
            (KStr ''hcl_code'', VStr (ex_hcl_code e))]"

fun key_name :: "pykey \<Rightarrow> string option" where
  "key_name (KStr s) = Some s"
| "key_name k = None"

definition kwargs :: "(pykey \<times> pyval) list \<Rightarrow> (string \<times> pyval) list option" where
  \<comment> \<open>the keywords of \<open>cls(**r)\<close>, which must be strings\<close>
  "kwargs kvs =
     (if list_all (\<lambda>kv. key_name (fst kv) \<noteq> None) kvs
      then Some (map (\<lambda>kv. (key_text (fst kv), snd kv)) kvs) else None)"

definition kw_get :: "(string \<times> pyval) list \<Rightarrow> string \<Rightarrow> pyval \<Rightarrow> pyval" where
  \<comment> \<open>a keyword argument, or the field's default\<close>
  "kw_get kvs k d = (case map_of kvs k of Some v \<Rightarrow> v | None \<Rightarrow> d)"

definition variable_of :: "pyval \<Rightarrow> error + TerraformVariable" where
  \<comment> \<open>\<open>TerraformVariable(**r)\<close>: \<open>TypeError\<close> for a keyword that is no field, or without
      \<open>name\<close> or \<open>type\<close>\<close>
  "variable_of r =
     (case r of
        VDict kvs0 \<Rightarrow>
         (case kwargs kvs0 of None \<Rightarrow> Inl TypeError | Some kvs \<Rightarrow>
          if \<not> list_all (\<lambda>k. k \<in> set [''name'', ''type'', ''description'', ''default'',
                                        ''required'', ''sensitive'']) (map fst kvs)
          then Inl TypeError
          else (case (map_of kvs ''name'', map_of kvs ''type'',
                      kw_get kvs ''description'' (VStr ''''), kw_get kvs ''required'' (VBool True),
                      kw_get kvs ''sensitive'' (VBool False)) of
                  (Some (VStr n), Some (VStr t), VStr d, VBool rq, VBool sn) \<Rightarrow>
                    Inr \<lparr>var_name = n, var_type = t, var_description = d,
                         var_default = kw_get kvs ''default'' VNone,
                         var_required = rq, var_sensitive = sn\<rparr>
                | _ \<Rightarrow> Inl TypeError))
      | _ \<Rightarrow> Inl TypeError)"

definition output_of :: "pyval \<Rightarrow> error + TerraformOutput" where
  "output_of r =
     (case r of
        VDict kvs0 \<Rightarrow>
         (case kwargs kvs0 of None \<Rightarrow> Inl TypeError | Some kvs \<Rightarrow>
          if \<not> list_all (\<lambda>k. k \<in> set [''name'', ''description'', ''value_expression'',
                                        ''sensitive'']) (map fst kvs)
          then Inl TypeError
          else (case (map_of kvs ''name'', kw_get kvs ''description'' (VStr ''''),
                      kw_get kvs ''value_expression'' (VStr ''''),
                      kw_get kvs ''sensitive'' (VBool False)) of
                  (Some (VStr n), VStr d, VStr e, VBool sn) \<Rightarrow>
                    Inr \<lparr>out_name = n, out_description = d, out_value_expression = e,
                         out_sensitive = sn\<rparr>
                | _ \<Rightarrow> Inl TypeError))
      | _ \<Rightarrow> Inl TypeError)"

definition example_of :: "pyval \<Rightarrow> error + TerraformExample" where
  "example_of r =
     (case r of
        VDict kvs0 \<Rightarrow>
         (case kwargs kvs0 of None \<Rightarrow> Inl TypeError | Some kvs \<Rightarrow>
          if \<not> list_all (\<lambda>k. k \<in> set [''title'', ''description'', ''hcl_code'']) (map fst kvs)
          then Inl TypeError
          else (case (map_of kvs ''title'', kw_get kvs ''description'' (VStr ''''),
                      kw_get kvs ''hcl_code'' (VStr '''')) of
                  (Some (VStr t), VStr d, VStr c) \<Rightarrow>
                    Inr \<lparr>ex_title = t, ex_description = d, ex_hcl_code = c\<rparr>
                | _ \<Rightarrow> Inl TypeError))
      | _ \<Rightarrow> Inl TypeError)"

definition tag_of :: "pyval \<Rightarrow> error + string" where
  "tag_of r = (case r of VStr s \<Rightarrow> Inr s | _ \<Rightarrow> Inl TypeError)"

fun collect :: "(error + 'a) list \<Rightarrow> error + 'a list" where
  \<comment> \<open>a list comprehension whose element may raise: the first error, or all the values\<close>
  "collect [] = Inr []"
| "collect (x # xs) =
     (case x of
        Inl e \<Rightarrow> Inl e
      | Inr a \<Rightarrow> (case collect xs of Inl e \<Rightarrow> Inl e | Inr as \<Rightarrow> Inr (a # as)))"

definition load :: "(pyval \<Rightarrow> error + 'a) \<Rightarrow> string \<Rightarrow> error + 'a list" where
  \<comment> \<open>\<open>[cls(**r) for r in json.loads(text or "[]")]\<close>; what is read is iterated: a list
      gives its elements, an empty string or dictionary nothing, a non-empty one its
      characters or keys, which no \<open>cls(**r)\<close> accepts, and nothing else is iterable\<close>
  "load cls text =
     (case json_loads (if text = [] then ''[]'' else text) of
        Inl e \<Rightarrow> Inl e
      | Inr raw \<Rightarrow>
          (case raw of
             VList rs \<Rightarrow> collect (map cls rs)
           | VDict kvs \<Rightarrow> if kvs = [] then Inr [] else Inl TypeError
           | VStr s \<Rightarrow> if s = [] then Inr [] else Inl TypeError
           | _ \<Rightarrow> Inl TypeError))"

definition row_to_module :: "Row \<Rightarrow> error + TerraformModule" where
  \<comment> \<open>\<open>_row_to_module\<close>\<close>
  "row_to_module row =
     (case load variable_of (row_variables row) of Inl e \<Rightarrow> Inl e | Inr vs \<Rightarrow>
      case load output_of (row_outputs row) of Inl e \<Rightarrow> Inl e | Inr os \<Rightarrow>
      case load example_of (row_examples row) of Inl e \<Rightarrow> Inl e | Inr es \<Rightarrow>
      case load tag_of (row_tags row) of Inl e \<Rightarrow> Inl e | Inr ts \<Rightarrow>
        Inr \<lparr>mod_id = row_id row, mod_name = row_name row, provider = row_provider row,
             resource_type = row_resource_type row, version = row_version row,
             description = row_description row, hcl_template = row_hcl_template row,
             variables = vs, outputs = os, examples = es, tags = ts,
             created_at = row_created_at row, download_count = row_download_count row\<rparr>)"

definition module_row :: "TerraformModule \<Rightarrow> Row" where
  \<comment> \<open>the values \<open>_save\<close> binds to the columns\<close>
  "module_row m =
     \<lparr>row_id = mod_id m, row_name = mod_name m, row_provider = provider m,
      row_resource_type = resource_type m, row_version = version m,
      row_description = description m, row_hcl_template = hcl_template m,
      row_variables = json_dumps (VList (map variable_dict (variables m))),
      row_outputs = json_dumps (VList (map output_dict (outputs m))),
      row_examples = json_dumps (VList (map example_dict (examples m))),
      row_tags = json_dumps (VList (map VStr (tags m))),
      row_created_at = created_at m, row_download_count = download_count m\<rparr>"

definition save :: "Row list \<Rightarrow> TerraformModule \<Rightarrow> error + Row list" where
  \<comment> \<open>\<open>_save\<close>: insert, or on a row of the same id update every column but
      \<open>created_at\<close>; the unique index on \<open>name\<close> refuses a name another row has\<close>
  "save st m =
     (if list_ex (\<lambda>r. row_name r = mod_name m \<and> row_id r \<noteq> mod_id m) st then Inl IntegrityError
      else if list_ex (\<lambda>r. row_id r = mod_id m) st
        then Inr (map (\<lambda>r. if row_id r = mod_id m
                            then (module_row m)\<lparr>row_created_at := row_created_at r\<rparr> else r) st)
      else Inr (st @ [module_row m]))"

section \<open>The registry\<close>

definition PROVIDERS :: "string list" where
  "PROVIDERS = [''aws'', ''gcp'', ''azure'', ''kubernetes'', ''helm'', ''null'']"

definition fetchone :: "Row list \<Rightarrow> string \<Rightarrow> Row option" where
  \<comment> \<open>the first row of \<open>SELECT * FROM modules WHERE id = ? OR name = ?\<close>. Both columns
      have a unique index (the primary key, and \<open>idx_name\<close>), and SQLite answers the
      disjunction one index after the other: the row of that id comes first, whatever
      the order of the rows, and the row of that name after it\<close>
  "fetchone st ref =
     (case find (\<lambda>r. row_id r = ref) st of
        Some row \<Rightarrow> Some row
      | None \<Rightarrow> find (\<lambda>r. row_name r = ref) st)"

definition get_module :: "Row list \<Rightarrow> string \<Rightarrow> error + TerraformModule" where
  "get_module st module_id_or_name =
     (case fetchone st module_id_or_name of
        None \<Rightarrow> Inl (KeyError module_id_or_name)
      | Some row \<Rightarrow> row_to_module row)"

definition register_module ::
  "Row list \<Rightarrow> string \<Rightarrow> string \<Rightarrow> string \<Rightarrow> string \<Rightarrow> string \<Rightarrow> string
     \<Rightarrow> TerraformVariable list \<Rightarrow> TerraformOutput list \<Rightarrow> string
     \<Rightarrow> TerraformExample list option \<Rightarrow> string list option \<Rightarrow> string
     \<Rightarrow> (error + TerraformModule) \<times> Row list" where
  \<comment> \<open>\<open>uuid\<close> stands for \<open>str(uuid.uuid4())\<close> and \<open>now\<close> for the time stamp of the new
      module, both drawn by the caller of the model\<close>
  "register_module st uuid now name prov rtype template vars outs descr exs tgs ver =
     (if prov \<notin> set PROVIDERS then (Inl (UnknownProvider prov), st)
      else let vr = validate_hcl template
      in if \<not> valid vr then (Inl (InvalidTemplate (errors vr)), st)
      else let m = \<lparr>mod_id = uuid, mod_name = name, provider = prov, resource_type = rtype,
                     version = ver, description = descr, hcl_template = template,
                     variables = vars, outputs = outs,
                     examples = (case exs of None \<Rightarrow> [] | Some es \<Rightarrow> es),
                     tags = (case tgs of None \<Rightarrow> [] | Some ts \<Rightarrow> ts),
                     created_at = now, download_count = 0\<rparr>
      in (case save st m of Inl e \<Rightarrow> (Inl e, st) | Inr st' \<Rightarrow> (Inr m, st')))"

definition placeholder :: "string \<Rightarrow> string" where
  "placeholder k = ''${var.'' @ k @ ''}''"

definition missing_variables :: "TerraformModule \<Rightarrow> (string \<times> pyval) list \<Rightarrow> string list" where
  "missing_variables m vars =
     map var_name (filter (\<lambda>v. var_required v \<and> var_default v = VNone
                               \<and> var_name v \<notin> set (map fst vars)) (variables m))"

definition merged_values :: "TerraformModule \<Rightarrow> (string \<times> pyval) list \<Rightarrow> (string \<times> pyval) list" where
  \<comment> \<open>the dictionary \<open>merged\<close>, in insertion order\<close>
  "merged_values m vars =
     dict_update
       (fold (\<lambda>v d. if var_default v \<noteq> VNone then dict_set d (var_name v) (var_default v) else d)
          (variables m) [])
       vars"

definition substitute :: "(string \<times> pyval) list \<Rightarrow> string \<Rightarrow> string" where
  \<comment> \<open>the loop over \<open>merged.items()\<close>\<close>
  "substitute merged template =
     fold (\<lambda>kv result. py_replace result (placeholder (fst kv)) (py_str (snd kv))) merged template"

definition generate_tf ::
  "Row list \<Rightarrow> string \<Rightarrow> (string \<times> pyval) list \<Rightarrow> (error + string) \<times> Row list" where
  \<comment> \<open>\<open>vars\<close> is the caller's dictionary, its items in insertion order\<close>
  "generate_tf st module_id_or_name vars =
     (case get_module st module_id_or_name of
        Inl e \<Rightarrow> (Inl e, st)
      | Inr m \<Rightarrow>
          if missing_variables m vars \<noteq> [] then (Inl (MissingVariables (missing_variables m vars)), st)
          else (Inr (substitute (merged_values m vars) (hcl_template m)),
                map (\<lambda>r. if row_id r = mod_id m
                          then r\<lparr>row_download_count := row_download_count r + 1\<rparr> else r) st))"

definition plan_block :: "string \<times> string \<times> string \<Rightarrow> string list" where
  \<comment> \<open>the lines of one matched block\<close>
  "plan_block m =
     (case m of (rtype, rname, rbody) \<Rightarrow>
        [''  + resource '' @ [CHR 0x22] @ rtype @ [CHR 0x22] @ '' '' @ [CHR 0x22] @ rname
           @ [CHR 0x22] @ '' {'']
        @ map (\<lambda>attr_line. ''      '' @ py_strip attr_line) (py_splitlines (py_strip rbody))
        @ [''  }'', ''''])"

definition export_plan ::
  "Row list \<Rightarrow> string \<Rightarrow> string \<Rightarrow> (string \<times> pyval) list \<Rightarrow> (error + string) \<times> Row list" where
  \<comment> \<open>\<open>ts\<close> is the time stamp \<open>datetime.now\<close> gives\<close>
  "export_plan st ts module_id_or_name vars =
     (case get_module st module_id_or_name of
        Inl e \<Rightarrow> (Inl e, st)
      | Inr m \<Rightarrow>
          (case generate_tf st module_id_or_name vars of
             (Inl e, st') \<Rightarrow> (Inl e, st')
           | (Inr rendered, st') \<Rightarrow>
               let header =
                     [''# Terraform Plan Export'',
                      ''# Module  : '' @ mod_name m @ '' v'' @ version m,
                      ''# Provider : '' @ provider m,
                      ''# Generated: '' @ ts,
                      ''#'',
                      ''# This plan shows what Terraform would create/modify.'',
                      ''# Review carefully before applying.'',
                      '''',
                      ''# '' @ box_rule 2 @ '' Resource: '' @ resource_type m @ '' '' @ box_rule 30,
                      ''''];
                   matches = resource_blocks rendered;
                   body =
                     (if matches \<noteq> []
                      then [''Changes to be applied:'', '''']
                           @ concat (map plan_block matches)
                           @ [''Plan: '' @ str_int (int (length matches))
                              @ '' to add, 0 to change, 0 to destroy.'']
                      else [''# (no resource blocks detected in rendered template)'', '''', rendered]);
                   footer = ['''', ''# '' @ box_rule 2 @ '' Rendered HCL '' @ box_rule 39, '''', rendered]
               in (Inr (py_join [CHR 0x0A] (header @ body @ footer)), st')))"

definition delete_module :: "Row list \<Rightarrow> string \<Rightarrow> (error + bool) \<times> Row list" where
  \<comment> \<open>only the \<open>KeyError\<close> of a reference that matches nothing is caught\<close>
  "delete_module st module_id_or_name =
     (case get_module st module_id_or_name of
        Inl e \<Rightarrow> (case e of KeyError k \<Rightarrow> (Inr False, st) | _ \<Rightarrow> (Inl e, st))
      | Inr m \<Rightarrow> (Inr True, filter (\<lambda>r. row_id r \<noteq> mod_id m) st))"

section \<open>Verification: version bump\<close>

declare str_nat.simps [simp del]






lemma is_digit_facts:
  "is_digit c \<Longrightarrow> \<not> is_cspace c \<and> c \<noteq> CHR ''_'' \<and> c \<noteq> CHR ''-'' \<and> c \<noteq> CHR ''+'' \<and> c \<noteq> CHR ''.''"
  by (auto simp: is_digit_def is_cspace_def)

lemma digits_ok_digits: "s \<noteq> [] \<Longrightarrow> list_all is_digit s \<Longrightarrow> digits_ok s"
proof (induction s rule: digits_ok.induct)
  case 1
  then show ?case by simp
next
  case (2 c)
  then show ?case by simp
next
  case (3 c d cs)
  then show ?case by (auto dest: is_digit_facts)
qed

lemma filter_digits: "list_all is_digit s \<Longrightarrow> filter (\<lambda>c. c \<noteq> CHR ''_'') s = s"
  by (induction s) (auto dest: is_digit_facts)

lemma dropWhile_hd: "xs \<noteq> [] \<Longrightarrow> \<not> P (hd xs) \<Longrightarrow> dropWhile P xs = xs"
  by (cases xs) auto

lemma py_int_digits:
  assumes "s \<noteq> []" and "list_all is_digit s"
  shows "py_int s = Inr (int (digits_val s))"
proof -
  from assms obtain c cs where s: "s = c # cs" by (cases s) auto
  with assms have c: "is_digit c" by simp
  have l: "is_digit (last s)" using assms by (simp add: list_all_iff)
  have d1: "dropWhile is_cspace s = s" using s c by (simp add: is_digit_facts)
  have "rev s \<noteq> []" "hd (rev s) = last s" using assms(1) by (simp_all add: hd_rev)
  then have d2: "dropWhile is_cspace (rev s) = rev s" using l by (intro dropWhile_hd) (simp_all add: is_digit_facts)
  show ?thesis
    using assms c s d1 d2
    by (simp add: py_int_def Let_def is_digit_facts digits_ok_digits filter_digits del: digits_ok.simps)
qed

lemma split_on_acc_no_sep:
  "sep \<notin> set a \<Longrightarrow> split_on_acc sep cur a = [cur @ a]"
  by (induction a arbitrary: cur) auto

lemma split_on_acc_sep:
  "sep \<notin> set a \<Longrightarrow> split_on_acc sep cur (a @ sep # rest) = (cur @ a) # split_on_acc sep [] rest"
  by (induction a arbitrary: cur) auto

lemma digits_no_dot: "list_all is_digit s \<Longrightarrow> CHR ''.'' \<notin> set s"
  by (induction s) (auto dest: is_digit_facts)

lemma split_version:
  assumes "list_all is_digit a" "list_all is_digit b" "list_all is_digit c"
  shows "py_split_on CHR ''.'' (a @ ''.'' @ b @ ''.'' @ c) = [a, b, c]"
  using assms
  by (simp add: py_split_on_def split_on_acc_sep split_on_acc_no_sep digits_no_dot)

text \<open>
  C8. A version of three dot-separated components, each a non-empty run of decimal digits
  with values \<open>A\<close>, \<open>B\<close>, \<open>C\<close>, is bumped to \<open>A.B.(C+1)\<close> by part "patch", to
  \<open>A.(B+1).0\<close> by part "minor" and to \<open>(A+1).0.0\<close> by part "major"; the new string is
  both stored in the module's version field and returned.
\<close>

theorem bump_version_spec:
  assumes a: "a \<noteq> [] \<and> list_all is_digit a"
    and b: "b \<noteq> [] \<and> list_all is_digit b"
    and c: "c \<noteq> [] \<and> list_all is_digit c"
    and v: "version m = a @ ''.'' @ b @ ''.'' @ c"
  shows "bump_version m ''patch'' =
           (let v' = str_nat (digits_val a) @ ''.'' @ str_nat (digits_val b) @ ''.'' @ str_nat (digits_val c + 1)
            in Inr (m\<lparr>version := v'\<rparr>, v'))
       \<and> bump_version m ''minor'' =
           (let v' = str_nat (digits_val a) @ ''.'' @ str_nat (digits_val b + 1) @ ''.'' @ str_nat 0
            in Inr (m\<lparr>version := v'\<rparr>, v'))
       \<and> bump_version m ''major'' =
           (let v' = str_nat (digits_val a + 1) @ ''.'' @ str_nat 0 @ ''.'' @ str_nat 0
            in Inr (m\<lparr>version := v'\<rparr>, v'))"
proof -
  have s: "py_split_on CHR ''.'' (version m) = [a, b, c]"
    using split_version[of a b c] a b c v by simp
  have i: "py_int a = Inr (int (digits_val a))" "py_int b = Inr (int (digits_val b))"
    "py_int c = Inr (int (digits_val c))"
    using a b c by (simp_all add: py_int_digits)
  have n: "\<And>k. str_int (int k) = str_nat k" "\<And>k. str_int (int k + 1) = str_nat (k + 1)" "str_int 0 = str_nat 0"
    by (simp_all add: str_int_def nat_add_distrib)
  show ?thesis
    by (simp add: bump_version_def s i n Let_def)
qed

definition version_test_module :: "string \<Rightarrow> TerraformModule" where
  \<comment> \<open>the tests' \<open>TerraformModule("id", "test", "aws", "res", v, "", "")\<close>\<close>
  "version_test_module v =
     \<lparr>mod_id = ''id'', mod_name = ''test'', provider = ''aws'', resource_type = ''res'',
      version = v, description = '''', hcl_template = '''', variables = [], outputs = [],
      examples = [], tags = [], created_at = '''', download_count = 0\<rparr>"

theorem bump_version_spec_witness:
  "bump_version (version_test_module ''1.2.3'') ''patch''
     = Inr (version_test_module ''1.2.4'', ''1.2.4'')
   \<and> bump_version (version_test_module ''1.2.3'') ''minor''
     = Inr (version_test_module ''1.3.0'', ''1.3.0'')
   \<and> bump_version (version_test_module ''1.2.3'') ''major''
     = Inr (version_test_module ''2.0.0'', ''2.0.0'')"
  using bump_version_spec [of "''1''" "''2''" "''3''" "version_test_module ''1.2.3''"]
  by (simp add: version_test_module_def is_digit_def digits_val_def digit_val_def
      str_nat.simps digit_char_def Let_def)

section \<open>Verification: structural validation\<close>


definition simple_hcl :: string where
  \<comment> \<open>the template \<open>SIMPLE_HCL\<close> of the tests, its labels placeholders\<close>
  "simple_hcl =
     ''resource '' @ [CHR 0x22] @ ''aws_instance'' @ [CHR 0x22] @ '' '' @ [CHR 0x22]
       @ ''${var.name}'' @ [CHR 0x22] @ '' {'' @ [CHR 0x0A]
     @ ''  ami           = '' @ [CHR 0x22] @ ''${var.ami_id}'' @ [CHR 0x22, CHR 0x0A]
     @ ''  instance_type = '' @ [CHR 0x22] @ ''${var.instance_type}'' @ [CHR 0x22, CHR 0x0A]
     @ ''}''"

definition stray_resource_hcl :: string where
  \<comment> \<open>a resource block, and a line that is the keyword alone\<close>
  "stray_resource_hcl =
     ''resource '' @ [CHR 0x22] @ ''aws_instance'' @ [CHR 0x22] @ '' '' @ [CHR 0x22] @ ''web''
       @ [CHR 0x22] @ '' {}'' @ [CHR 0x0A]
     @ ''resource''"

definition nested_resources_hcl :: string where
  \<comment> \<open>a resource block with a nested \<open>resources\<close> block, as in the built-in module
      \<open>kubernetes_deployment\<close>\<close>
  "nested_resources_hcl =
     ''resource '' @ [CHR 0x22] @ ''kubernetes_deployment'' @ [CHR 0x22] @ '' '' @ [CHR 0x22]
       @ ''app'' @ [CHR 0x22] @ '' {'' @ [CHR 0x0A]
     @ ''  resources {'' @ [CHR 0x0A]
     @ ''  }'' @ [CHR 0x0A]
     @ ''}''"

text \<open>
  C3, as stated: a text with balanced counts, not blank, that contains a well-formed
  resource block is valid. It is not: the text below has all three properties, and a
  second line that begins with the token \<open>resource\<close> and has no labels, which the
  label check reports.
\<close>

theorem validate_hcl_block_counterexample:
  "py_count stray_resource_hcl CHR ''{'' = py_count stray_resource_hcl CHR ''}''
   \<and> py_count stray_resource_hcl CHR ''['' = py_count stray_resource_hcl CHR '']''
   \<and> py_count stray_resource_hcl CHR ''('' = py_count stray_resource_hcl CHR '')''
   \<and> py_strip stray_resource_hcl \<noteq> []
   \<and> resource_blocks stray_resource_hcl = [(''aws_instance'', ''web'', [])]
   \<and> validate_hcl stray_resource_hcl
       = \<lparr>valid = False, errors = [missing_labels ''resource''], warnings = []\<rparr>"
  by code_simp

lemma split_acc_spaces:
  "list_all is_space w \<Longrightarrow> split_acc cur w = (if cur = [] then [] else [cur])"
  by (induction w arbitrary: cur) auto

lemma split_acc_trailing:
  "list_all is_space w \<Longrightarrow> split_acc cur (a @ w) = split_acc cur a"
proof (induction a arbitrary: cur)
  case Nil
  then show ?case by (simp add: split_acc_spaces)
next
  case (Cons c a)
  then show ?case by simp
qed

lemma split_acc_leading: "split_acc [] (dropWhile is_space s) = split_acc [] s"
  by (induction s) auto

lemma rstrip_parts:
  "\<exists>w. list_all is_space w \<and> s = rev (dropWhile is_space (rev s)) @ w"
proof -
  have "rev s = takeWhile is_space (rev s) @ dropWhile is_space (rev s)" by simp
  then have "s = rev (dropWhile is_space (rev s)) @ rev (takeWhile is_space (rev s))"
    by (metis rev_append rev_rev_ident)
  moreover have "list_all is_space (rev (takeWhile is_space (rev s)))"
    by (simp add: list_all_iff) (meson set_takeWhileD)
  ultimately show ?thesis by blast
qed

lemma py_split_strip: "py_split (py_strip l) = py_split l"
proof -
  obtain w where w: "list_all is_space w"
    "dropWhile is_space l = rev (dropWhile is_space (rev (dropWhile is_space l))) @ w"
    using rstrip_parts[of "dropWhile is_space l"] by blast
  have "py_split (py_strip l) = split_acc [] (py_strip l @ w)"
    using w(1) by (simp add: py_split_def split_acc_trailing)
  also have "py_strip l @ w = dropWhile is_space l"
    using w(2) by (simp add: py_strip_def)
  finally show ?thesis by (simp add: py_split_def split_acc_leading)
qed

lemma split_acc_token:
  "cur \<noteq> [] \<Longrightarrow>
   split_acc cur s = (cur @ takeWhile (\<lambda>c. \<not> is_space c) s)
                      # split_acc [] (dropWhile (\<lambda>c. \<not> is_space c) s)"
proof (induction s arbitrary: cur)
  case Nil
  then show ?case by simp
next
  case (Cons c s)
  then show ?case by (cases s) auto
qed

lemma split_keyword:
  "\<exists>t ts. py_split (''resource'' @ rest) = t # ts \<and> prefix ''resource'' t"
proof -
  have "split_acc [] (''resource'' @ rest) = split_acc ''resource'' rest"
    by (simp add: is_space_def)
  with split_acc_token[of "''resource''" rest] show ?thesis
    by (simp add: py_split_def)
qed

definition labelled :: "string \<Rightarrow> bool" where
  \<comment> \<open>a line whose first token is \<open>resource\<close> has at least three tokens\<close>
  "labelled l =
     (case py_split l of [] \<Rightarrow> True | t # ts \<Rightarrow> t = ''resource'' \<longrightarrow> 3 \<le> length (t # ts))"

definition keyword_exact :: "string \<Rightarrow> bool" where
  \<comment> \<open>a line whose first token begins with \<open>resource\<close> and goes on, as \<open>resources\<close>, has
      at least three tokens too\<close>
  "keyword_exact l =
     (case py_split l of
        [] \<Rightarrow> True
      | t # ts \<Rightarrow> prefix ''resource'' t \<and> t \<noteq> ''resource'' \<longrightarrow> 3 \<le> length (t # ts))"

lemma resource_line_tokens:
  assumes "prefix ''resource'' (py_strip l)" "labelled l" "keyword_exact l"
  shows "3 \<le> length (py_split (py_strip l))"
proof -
  from assms(1) obtain rest where "py_strip l = ''resource'' @ rest"
    by (auto simp: prefix_def)
  with split_keyword[of rest] obtain t ts where
    "py_split (py_strip l) = t # ts" "prefix ''resource'' t"
    by auto
  with assms(2,3) show ?thesis
    by (auto simp: py_split_strip labelled_def keyword_exact_def)
qed

text \<open>
  C3, amended: a text whose counts of \<open>{\<close> and \<open>}\<close>, \<open>[\<close> and \<open>]\<close>, \<open>(\<close> and \<open>)\<close> are pairwise
  equal, which is not empty or whitespace-only, and in which every line whose first token
  is \<open>resource\<close> has at least three whitespace-separated tokens, is valid, with an empty
  error list, whether or not it holds a resource block (a text without one is warned
  about, not refused). Of the code this holds for the texts in which a line whose first
  token only begins with \<open>resource\<close>, as \<open>resources\<close>, has three tokens as well: on the
  others the label check errs, which is C4.
\<close>

theorem validate_hcl_valid:
  assumes "py_count t CHR ''{'' = py_count t CHR ''}''"
    and "py_count t CHR ''['' = py_count t CHR '']''"
    and "py_count t CHR ''('' = py_count t CHR '')''"
    and "py_strip t \<noteq> []"
    and "list_all labelled (py_splitlines t)"
    and "list_all keyword_exact (py_splitlines t)"
  shows "valid (validate_hcl t) \<and> errors (validate_hcl t) = []"
proof -
  have "\<And>rl. rl \<in> set (resource_lines t) \<Longrightarrow> \<not> length (py_split rl) < 3"
  proof -
    fix rl
    assume "rl \<in> set (resource_lines t)"
    then obtain l where l: "l \<in> set (py_splitlines t)" "prefix ''resource'' (py_strip l)"
      "rl = py_strip l"
      by (auto simp: resource_lines_def)
    from l(1) assms(5,6) have "labelled l" "keyword_exact l"
      by (simp_all add: list_all_iff)
    from resource_line_tokens[OF l(2) this] l(3) show "\<not> length (py_split rl) < 3"
      by simp
  qed
  then have "concat (map (\<lambda>rl. if length (py_split rl) < 3 then [missing_labels rl] else [])
          (resource_lines t)) = []"
    by (induction "resource_lines t") auto
  with assms show ?thesis
    by (simp add: validate_hcl_def Let_def)
qed

theorem validate_hcl_valid_witness:
  "list_all labelled (py_splitlines simple_hcl)
   \<and> list_all keyword_exact (py_splitlines simple_hcl)
   \<and> valid (validate_hcl simple_hcl) \<and> errors (validate_hcl simple_hcl) = []"
proof -
  have h: "py_count simple_hcl CHR ''{'' = py_count simple_hcl CHR ''}''"
    "py_count simple_hcl CHR ''['' = py_count simple_hcl CHR '']''"
    "py_count simple_hcl CHR ''('' = py_count simple_hcl CHR '')''"
    "py_strip simple_hcl \<noteq> []"
    "list_all labelled (py_splitlines simple_hcl)"
    "list_all keyword_exact (py_splitlines simple_hcl)"
    by code_simp+
  from validate_hcl_valid [OF h] h show ?thesis by simp
qed

text \<open>
  C4. The label error is to name the lines that begin with the token \<open>resource\<close> and
  have fewer than three tokens, and no other line. The check tests the characters the
  stripped line starts with, not its first token: the line \<open>resources {\<close>, whose first
  token is \<open>resources\<close>, is reported, and the text is refused.
\<close>

theorem validate_hcl_resources_line:
  "hd (py_split ''  resources {'') = ''resources''
   \<and> length (py_split ''  resources {'') = 2
   \<and> validate_hcl nested_resources_hcl
       = \<lparr>valid = False, errors = [missing_labels ''resources {''], warnings = []\<rparr>"
  by code_simp

section \<open>Verification: substitution\<close>

text \<open>
  The words of the spec, to compare the loop of replacements with: a template is a
  sequence of literal text and placeholders, and rendering it under a table replaces
  every placeholder whose name the table has by the string form of its value, and
  leaves every other placeholder as it is.
\<close>

declare replace_all.simps [simp del]

datatype segment = Lit string | Ph string

fun seg_text :: "segment \<Rightarrow> string" where
  "seg_text (Lit s) = s"
| "seg_text (Ph k) = placeholder k"

definition template_text :: "segment list \<Rightarrow> string" where
  "template_text segs = concat (map seg_text segs)"

fun render_seg :: "(string \<Rightarrow> pyval option) \<Rightarrow> segment \<Rightarrow> string" where
  "render_seg tbl (Lit s) = s"
| "render_seg tbl (Ph k) = (case tbl k of Some v \<Rightarrow> py_str v | None \<Rightarrow> placeholder k)"

definition render :: "(string \<Rightarrow> pyval option) \<Rightarrow> segment list \<Rightarrow> string" where
  "render tbl segs = concat (map (render_seg tbl) segs)"

definition var_open :: string where
  "var_open = ''${var.''"

fun no_var_start :: "string \<Rightarrow> bool" where
  "no_var_start [] = True"
| "no_var_start (c # cs) =
     (\<not> (c = CHR ''$'' \<and> (prefix var_open (c # cs) \<or> prefix (c # cs) var_open)) \<and> no_var_start cs)"

fun clean_seg :: "segment \<Rightarrow> bool" where
  "clean_seg (Lit s) = no_var_start s"
| "clean_seg (Ph k) = (CHR ''$'' \<notin> set k \<and> CHR ''}'' \<notin> set k)"

definition clean_template :: "segment list \<Rightarrow> bool" where
  "clean_template segs = list_all clean_seg segs"

lemma replace_all_Nil [simp]: "replace_all old new [] = []"
  by (simp add: replace_all.simps)

lemma replace_all_match:
  "old \<noteq> [] \<Longrightarrow> replace_all old new (old @ s) = new @ replace_all old new s"
  by (subst replace_all.simps) simp

lemma replace_all_skip:
  "old \<noteq> [] \<Longrightarrow> \<not> prefix old (c # s) \<Longrightarrow> replace_all old new (c # s) = c # replace_all old new s"
  by (subst replace_all.simps) simp

lemma replace_all_pass:
  "old \<noteq> [] \<Longrightarrow> hd old \<notin> set s \<Longrightarrow> replace_all old new (s @ t) = s @ replace_all old new t"
proof (induction s)
  case Nil
  then show ?case by simp
next
  case (Cons c s)
  then have "\<not> prefix old ((c # s) @ t)"
    by (cases old) auto
  with Cons show ?case
    by (simp add: replace_all_skip)
qed

lemma no_dollar_no_var_start: "CHR ''$'' \<notin> set s \<Longrightarrow> no_var_start s"
  by (induction s) auto

text \<open>
  A text passes \<open>no_var_start\<close> exactly when \<open>${var.\<close> begins nowhere in it, neither in
  full nor cut short by the end of the text.
\<close>

lemma var_open_hd: "prefix var_open (c # cs) \<or> prefix (c # cs) var_open \<Longrightarrow> c = CHR ''$''"
  unfolding var_open_def by (erule disjE) simp_all

lemma no_var_start_iff:
  "no_var_start s = (\<forall>u. suffix u s \<and> u \<noteq> [] \<longrightarrow> \<not> prefix var_open u \<and> \<not> prefix u var_open)"
proof (induction s)
  case Nil
  then show ?case by simp
next
  case (Cons c cs)
  show ?case
  proof
    assume a: "no_var_start (c # cs)"
    show "\<forall>u. suffix u (c # cs) \<and> u \<noteq> [] \<longrightarrow> \<not> prefix var_open u \<and> \<not> prefix u var_open"
    proof (intro allI impI)
      fix u assume u: "suffix u (c # cs) \<and> u \<noteq> []"
      then consider "u = c # cs" | "suffix u cs" by (auto simp: suffix_Cons)
      then show "\<not> prefix var_open u \<and> \<not> prefix u var_open"
      proof cases
        case 1
        show ?thesis
        proof (rule ccontr)
          assume "\<not> (\<not> prefix var_open u \<and> \<not> prefix u var_open)"
          then have p: "prefix var_open (c # cs) \<or> prefix (c # cs) var_open"
            unfolding 1 by blast
          then have "c = CHR ''$''" by (rule var_open_hd)
          with a p show False by simp
        qed
      next
        case 2
        with a u Cons.IH show ?thesis by simp
      qed
    qed
  next
    assume b: "\<forall>u. suffix u (c # cs) \<and> u \<noteq> [] \<longrightarrow> \<not> prefix var_open u \<and> \<not> prefix u var_open"
    then have "\<forall>u. suffix u cs \<and> u \<noteq> [] \<longrightarrow> \<not> prefix var_open u \<and> \<not> prefix u var_open"
      by (simp add: suffix_Cons)
    with Cons.IH have "no_var_start cs" by simp
    moreover from b have "\<not> prefix var_open (c # cs) \<and> \<not> prefix (c # cs) var_open"
      by (simp add: suffix_Cons)
    ultimately show "no_var_start (c # cs)" by simp
  qed
qed

lemma replace_all_lit:
  "no_var_start s \<Longrightarrow> prefix var_open old \<Longrightarrow> replace_all old new (s @ t) = s @ replace_all old new t"
proof (induction s)
  case Nil
  then show ?case by simp
next
  case (Cons c s)
  have ne: "old \<noteq> []" using Cons.prems(2) by (auto simp: var_open_def)
  have "\<not> prefix old ((c # s) @ t)"
  proof
    assume p: "prefix old ((c # s) @ t)"
    with Cons.prems(2) have q: "prefix var_open ((c # s) @ t)"
      by (rule prefix_order.trans)
    then have "c = CHR ''$''" by (simp add: var_open_def)
    moreover from q have "prefix var_open (c # s) \<or> prefix (c # s) var_open"
      unfolding prefix_append by (auto simp: prefix_def)
    ultimately show False using Cons.prems(1) by simp
  qed
  with Cons ne show ?case
    by (simp add: replace_all_skip)
qed

lemma placeholder_open: "prefix var_open (placeholder k)"
  by (simp add: placeholder_def var_open_def)

lemma placeholder_Cons: "placeholder k = CHR ''$'' # ''{var.'' @ k @ ''}''"
  by (simp add: placeholder_def)

lemma placeholder_ne [simp]: "placeholder k \<noteq> []" "hd (placeholder k) = CHR ''$''"
  by (simp_all add: placeholder_def)

lemma name_prefix_eq:
  "CHR ''}'' \<notin> set k \<Longrightarrow> CHR ''}'' \<notin> set k' \<Longrightarrow> prefix (k @ ''}'') (k' @ ''}'' @ rest) \<Longrightarrow> k = k'"
proof (induction k arbitrary: k')
  case Nil
  then show ?case by (cases k') auto
next
  case (Cons c cs)
  then show ?case by (cases k') auto
qed

lemma placeholder_prefix_eq:
  assumes "CHR ''}'' \<notin> set k" "CHR ''}'' \<notin> set k'" "prefix (placeholder k) (placeholder k' @ rest)"
  shows "k = k'"
  using assms name_prefix_eq[of k k' rest] by (simp add: placeholder_def)

lemma replace_all_other:
  assumes "CHR ''}'' \<notin> set k" "CHR ''}'' \<notin> set k'" "CHR ''$'' \<notin> set k'" "k \<noteq> k'"
  shows "replace_all (placeholder k) new (placeholder k' @ rest)
         = placeholder k' @ replace_all (placeholder k) new rest"
proof -
  have np: "\<not> prefix (placeholder k) (CHR ''$'' # (''{var.'' @ k' @ ''}'') @ rest)"
    using placeholder_prefix_eq[OF assms(1,2), of rest] assms(4) by (auto simp: placeholder_Cons)
  have "replace_all (placeholder k) new (CHR ''$'' # (''{var.'' @ k' @ ''}'') @ rest)
        = CHR ''$'' # replace_all (placeholder k) new ((''{var.'' @ k' @ ''}'') @ rest)"
    using np by (intro replace_all_skip) simp_all
  also have "replace_all (placeholder k) new ((''{var.'' @ k' @ ''}'') @ rest)
        = (''{var.'' @ k' @ ''}'') @ replace_all (placeholder k) new rest"
    using assms(3) by (intro replace_all_pass) simp_all
  finally show ?thesis by (simp add: placeholder_Cons)
qed

fun subst1 :: "string \<Rightarrow> string \<Rightarrow> segment \<Rightarrow> segment" where
  "subst1 k new (Lit s) = Lit s"
| "subst1 k new (Ph k') = (if k' = k then Lit new else Ph k')"

lemma replace_all_segments:
  assumes "clean_template segs" "CHR ''}'' \<notin> set k"
  shows "replace_all (placeholder k) new (template_text segs)
         = template_text (map (subst1 k new) segs)"
  using assms(1)
proof (induction segs)
  case Nil
  then show ?case by (simp add: template_text_def)
next
  case (Cons seg segs)
  then have ih: "replace_all (placeholder k) new (template_text segs)
         = template_text (map (subst1 k new) segs)"
    by (simp add: clean_template_def)
  show ?case
  proof (cases seg)
    case (Lit s)
    with Cons.prems have "no_var_start s" by (simp add: clean_template_def)
    then have "replace_all (placeholder k) new (s @ template_text segs)
        = s @ replace_all (placeholder k) new (template_text segs)"
      by (intro replace_all_lit placeholder_open)
    with Lit ih show ?thesis by (simp add: template_text_def)
  next
    case (Ph k')
    with Cons.prems have c: "CHR ''$'' \<notin> set k'" "CHR ''}'' \<notin> set k'"
      by (simp_all add: clean_template_def)
    show ?thesis
    proof (cases "k' = k")
      case True
      with Ph ih show ?thesis
        using replace_all_match[of "placeholder k" new "template_text segs"]
        by (simp add: template_text_def)
    next
      case False
      with Ph ih c assms(2) show ?thesis
        using replace_all_other[of k k' new "template_text segs"]
        by (simp add: template_text_def)
    qed
  qed
qed

lemma clean_subst1:
  "clean_template segs \<Longrightarrow> no_var_start new \<Longrightarrow> clean_template (map (subst1 k new) segs)"
proof (induction segs)
  case Nil
  then show ?case by (simp add: clean_template_def)
next
  case (Cons seg segs)
  then show ?case by (cases seg) (auto simp: clean_template_def)
qed

definition clean_table :: "(string \<times> pyval) list \<Rightarrow> bool" where
  "clean_table tbl = list_all (\<lambda>kv. CHR ''}'' \<notin> set (fst kv) \<and> no_var_start (py_str (snd kv))) tbl"

lemma substitute_segments:
  "clean_template segs \<Longrightarrow> clean_table tbl \<Longrightarrow>
   substitute tbl (template_text segs)
   = template_text (fold (\<lambda>kv. map (subst1 (fst kv) (py_str (snd kv)))) tbl segs)"
proof (induction tbl arbitrary: segs)
  case Nil
  then show ?case by (simp add: substitute_def)
next
  case (Cons kv tbl)
  have r: "py_replace (template_text segs) (placeholder (fst kv)) (py_str (snd kv))
           = template_text (map (subst1 (fst kv) (py_str (snd kv))) segs)"
    using Cons.prems by (simp add: py_replace_def replace_all_segments clean_table_def)
  have c: "clean_template (map (subst1 (fst kv) (py_str (snd kv))) segs)"
    using Cons.prems by (simp add: clean_subst1 clean_table_def)
  have t: "clean_table tbl" using Cons.prems by (simp add: clean_table_def)
  have "substitute (kv # tbl) (template_text segs)
        = substitute tbl (py_replace (template_text segs) (placeholder (fst kv)) (py_str (snd kv)))"
    by (simp add: substitute_def)
  with r Cons.IH[OF c t] show ?case by simp
qed

lemma fold_subst1_seg:
  "seg_text (fold (\<lambda>kv. subst1 (fst kv) (py_str (snd kv))) tbl seg) = render_seg (map_of tbl) seg"
proof (induction tbl arbitrary: seg)
  case Nil
  then show ?case by (cases seg) auto
next
  case (Cons kv tbl)
  have lit: "\<And>s. fold (\<lambda>kv. subst1 (fst kv) (py_str (snd kv))) tbl (Lit s) = Lit s"
    by (induction tbl) auto
  show ?case
  proof (cases seg)
    case (Lit s)
    then show ?thesis using lit by simp
  next
    case (Ph k)
    then show ?thesis using Cons.IH[of "Ph k"] lit by (cases kv) auto
  qed
qed

lemma fold_map_subst1:
  "fold (\<lambda>kv. map (subst1 (fst kv) (py_str (snd kv)))) tbl segs
   = map (fold (\<lambda>kv. subst1 (fst kv) (py_str (snd kv))) tbl) segs"
  by (induction tbl arbitrary: segs) auto

lemma substitute_render:
  assumes "clean_template segs" "clean_table tbl"
  shows "substitute tbl (template_text segs) = render (map_of tbl) segs"
proof -
  have "template_text (map (fold (\<lambda>kv. subst1 (fst kv) (py_str (snd kv))) tbl) segs)
        = render (map_of tbl) segs"
    by (induction segs) (simp_all add: template_text_def render_def fold_subst1_seg)
  with substitute_segments[OF assms] show ?thesis
    by (simp add: fold_map_subst1)
qed

definition default_of :: "TerraformVariable list \<Rightarrow> string \<Rightarrow> pyval option" where
  "default_of vs k =
     (case find (\<lambda>v. var_name v = k \<and> var_default v \<noteq> VNone) (rev vs) of
        Some v \<Rightarrow> Some (var_default v)
      | None \<Rightarrow> None)"

definition merged_spec :: "TerraformModule \<Rightarrow> (string \<times> pyval) list \<Rightarrow> string \<Rightarrow> pyval option" where
  "merged_spec m vars k =
     (case map_of vars k of Some v \<Rightarrow> Some v | None \<Rightarrow> default_of (variables m) k)"

definition is_missing :: "(string \<times> pyval) list \<Rightarrow> TerraformVariable \<Rightarrow> bool" where
  "is_missing vars v = (var_required v \<and> var_default v = VNone \<and> map_of vars (var_name v) = None)"

lemma dict_update_lookup:
  "distinct (map fst items) \<Longrightarrow>
   map_of (dict_update d items) k = (case map_of items k of Some v \<Rightarrow> Some v | None \<Rightarrow> map_of d k)"
proof (induction items arbitrary: d)
  case Nil
  then show ?case by (simp add: dict_update_def)
next
  case (Cons kv items)
  have "dict_update d (kv # items) = dict_update (dict_set d (fst kv) (snd kv)) items"
    by (simp add: dict_update_def)
  moreover have "map_of items (fst kv) = None"
    using Cons.prems by (simp add: map_of_eq_None_iff)
  ultimately show ?case
    using Cons.IH[of "dict_set d (fst kv) (snd kv)"] Cons.prems
    by (cases kv) (auto simp: dict_set_def update_conv' split: option.splits)
qed

lemma dict_update_distinct:
  "distinct (map fst d) \<Longrightarrow> distinct (map fst (dict_update d items))"
proof (induction items arbitrary: d)
  case Nil
  then show ?case by (simp add: dict_update_def)
next
  case (Cons kv items)
  have "dict_update d (kv # items) = dict_update (dict_set d (fst kv) (snd kv)) items"
    by (simp add: dict_update_def)
  with Cons show ?case by (simp add: dict_set_def distinct_update)
qed

lemma find_app:
  "find P (xs @ ys) = (case find P xs of Some x \<Rightarrow> Some x | None \<Rightarrow> find P ys)"
  by (induction xs) auto

lemma defaults_fold_lookup:
  "map_of (fold (\<lambda>v d. if var_default v \<noteq> VNone then dict_set d (var_name v) (var_default v) else d) vs d) k
   = (case default_of vs k of Some x \<Rightarrow> Some x | None \<Rightarrow> map_of d k)"
proof (induction vs arbitrary: d)
  case Nil
  then show ?case by (simp add: default_of_def)
next
  case (Cons v vs)
  have d: "default_of (v # vs) k =
      (case default_of vs k of Some x \<Rightarrow> Some x
       | None \<Rightarrow> if var_name v = k \<and> var_default v \<noteq> VNone then Some (var_default v) else None)"
    by (simp add: default_of_def find_app split: option.splits)
  show ?case
    using Cons.IH[of "if var_default v \<noteq> VNone then dict_set d (var_name v) (var_default v) else d"]
    by (auto simp: d dict_set_def update_conv' split: option.splits)
qed

lemma defaults_fold_distinct:
  "distinct (map fst d) \<Longrightarrow>
   distinct (map fst (fold (\<lambda>v d. if var_default v \<noteq> VNone then dict_set d (var_name v) (var_default v) else d) vs d))"
  by (induction vs arbitrary: d) (auto simp: dict_set_def distinct_update)

lemma merged_values_lookup:
  "distinct (map fst vars) \<Longrightarrow> map_of (merged_values m vars) = merged_spec m vars"
  by (rule ext) (simp add: merged_values_def merged_spec_def dict_update_lookup defaults_fold_lookup
      split: option.splits)

lemma merged_values_distinct: "distinct (map fst (merged_values m vars))"
  by (simp add: merged_values_def dict_update_distinct defaults_fold_distinct)

lemma missing_variables_spec:
  "missing_variables m vars = map var_name (filter (is_missing vars) (variables m))"
  by (simp add: missing_variables_def is_missing_def[abs_def] map_of_eq_None_iff)

definition count_up :: "string \<Rightarrow> Row \<Rightarrow> Row" where
  "count_up i r = (if row_id r = i then r\<lparr>row_download_count := row_download_count r + 1\<rparr> else r)"

lemma generate_tf_unfold:
  assumes "get_module st ref = Inr m"
  shows "generate_tf st ref vars =
     (if missing_variables m vars \<noteq> [] then (Inl (MissingVariables (missing_variables m vars)), st)
      else (Inr (substitute (merged_values m vars) (hcl_template m)), map (count_up (mod_id m)) st))"
  using assms by (simp add: generate_tf_def count_up_def[abs_def])

lemma find_map_on:
  "find P (map f xs) = map_option f (find (\<lambda>x. P (f x)) xs)"
  by (induction xs) auto

lemma fetchone_map:
  assumes "\<And>r. row_id (f r) = row_id r" "\<And>r. row_name (f r) = row_name r"
  shows "fetchone (map f st) ref = map_option f (fetchone st ref)"
  by (simp add: fetchone_def find_map_on assms split: option.splits)

lemma fetchone_Some:
  assumes "fetchone st ref = Some r"
  shows "r \<in> set st \<and> (row_id r = ref \<or> row_name r = ref)"
proof -
  from assms have "find (\<lambda>r. row_id r = ref) st = Some r \<or> find (\<lambda>r. row_name r = ref) st = Some r"
    by (auto simp: fetchone_def split: option.splits)
  then show ?thesis
    by (auto simp: find_Some_iff nth_mem)
qed

lemma fetchone_None:
  "(fetchone st ref = None) = (\<forall>r \<in> set st. row_id r \<noteq> ref \<and> row_name r \<noteq> ref)"
proof
  assume "fetchone st ref = None"
  then have "find (\<lambda>r. row_id r = ref) st = None" "find (\<lambda>r. row_name r = ref) st = None"
    by (auto simp: fetchone_def split: option.splits)
  then show "\<forall>r \<in> set st. row_id r \<noteq> ref \<and> row_name r \<noteq> ref"
    by (auto simp: find_None_iff)
next
  assume "\<forall>r \<in> set st. row_id r \<noteq> ref \<and> row_name r \<noteq> ref"
  then have "find (\<lambda>r. row_id r = ref) st = None" "find (\<lambda>r. row_name r = ref) st = None"
    by (auto simp: find_None_iff)
  then show "fetchone st ref = None"
    by (simp add: fetchone_def)
qed

lemma row_to_module_id: "row_to_module r = Inr m \<Longrightarrow> mod_id m = row_id r \<and> download_count m = row_download_count r"
  by (auto simp: row_to_module_def split: sum.splits)

lemma row_to_module_count:
  "row_to_module r = Inr m \<Longrightarrow>
   row_to_module (r\<lparr>row_download_count := c\<rparr>) = Inr (m\<lparr>download_count := c\<rparr>)"
  by (auto simp: row_to_module_def split: sum.splits)

lemma get_module_counted:
  assumes "get_module st ref = Inr m"
  shows "get_module (map (count_up (mod_id m)) st) ref = Inr (m\<lparr>download_count := download_count m + 1\<rparr>)"
proof -
  from assms obtain r where f: "fetchone st ref = Some r"
    and r: "row_to_module r = Inr m"
    by (auto simp: get_module_def split: option.splits)
  have "fetchone (map (count_up (mod_id m)) st) ref = Some (count_up (mod_id m) r)"
    using f by (simp add: fetchone_map count_up_def)
  moreover have "count_up (mod_id m) r = r\<lparr>row_download_count := row_download_count r + 1\<rparr>"
    using row_to_module_id[OF r] by (simp add: count_up_def)
  ultimately show ?thesis
    using row_to_module_count[OF r, of "row_download_count r + 1"] row_to_module_id[OF r]
    by (simp add: get_module_def)
qed

text \<open>
  C2. For a reference that resolves to a module, \<open>generate_tf\<close> fails if and only if some
  variable is missing (required, default \<open>None\<close>, no entry in the caller's mapping); the
  failure names every missing variable, in declaration order, and leaves the store as it
  was; a success returns a store in which the module's download count is one more.
\<close>

theorem generate_tf_missing:
  assumes "get_module st ref = Inr m"
  shows "((\<exists>e. fst (generate_tf st ref vars) = Inl e) = (\<exists>v \<in> set (variables m). is_missing vars v))
     \<and> ((\<exists>v \<in> set (variables m). is_missing vars v) \<longrightarrow>
          generate_tf st ref vars
            = (Inl (MissingVariables (map var_name (filter (is_missing vars) (variables m)))), st))
     \<and> (\<not> (\<exists>v \<in> set (variables m). is_missing vars v) \<longrightarrow>
          (\<exists>text st'. generate_tf st ref vars = (Inr text, st')
             \<and> get_module st' ref = Inr (m\<lparr>download_count := download_count m + 1\<rparr>)))"
proof -
  have e: "(missing_variables m vars \<noteq> []) = (\<exists>v \<in> set (variables m). is_missing vars v)"
    by (auto simp: missing_variables_spec filter_empty_conv)
  show ?thesis
    using get_module_counted[OF assms] e
    by (auto simp: generate_tf_unfold[OF assms] missing_variables_spec)
qed


lemma prefix_over:
  assumes "prefix old (pre @ y # rest)" "\<not> prefix old pre" "pre \<noteq> []"
  shows "y \<in> set (tl old)"
proof -
  from assms(1,2) obtain us where u: "old = pre @ us" "prefix us (y # rest)"
    by (auto simp: prefix_append)
  with assms(2) have "us \<noteq> []" by auto
  with u(2) obtain us' where "us = y # us'" by (cases us) auto
  with u(1) assms(3) show ?thesis by (cases pre) auto
qed

lemma replace_all_split:
  "old \<noteq> [] \<Longrightarrow> y \<notin> set (tl old) \<Longrightarrow>
   replace_all old new (pre @ y # rest)
   = replace_all old new pre @ replace_all old new (y # rest)"
proof (induction old new pre rule: replace_all.induct)
  case (1 old new s)
  show ?case
  proof (cases "s = []")
    case True
    then show ?thesis by simp
  next
    case False
    show ?thesis
    proof (cases "prefix old s")
      case True
      then obtain t where t: "s = old @ t" by (auto simp: prefix_def)
      have "replace_all old new (drop (length old) s @ y # rest)
            = replace_all old new (drop (length old) s) @ replace_all old new (y # rest)"
        using 1(1)[OF _ True] False 1(3,4) by simp
      then show ?thesis
        using t 1(3) replace_all_match[of old new "t @ y # rest"] replace_all_match[of old new t]
        by simp
    next
      case np: False
      from False obtain c cs where s: "s = c # cs" by (cases s) auto
      have n2: "\<not> prefix old (c # cs @ y # rest)"
        using prefix_over[of old s y rest] np False 1(4) s by auto
      have "replace_all old new (tl s @ y # rest)
            = replace_all old new (tl s) @ replace_all old new (y # rest)"
        using 1(2)[OF _ np] False 1(3,4) by simp
      then show ?thesis
        using s np n2 1(3) by (simp add: replace_all_skip)
    qed
  qed
qed

lemma replace_all_keeps:
  assumes "CHR ''$'' \<notin> set k" "CHR ''}'' \<notin> set k" "CHR ''$'' \<notin> set n" "CHR ''}'' \<notin> set n"
    and "k \<noteq> n"
  shows "replace_all (placeholder k) new (pre @ placeholder n @ post)
         = replace_all (placeholder k) new pre @ placeholder n @ replace_all (placeholder k) new post"
proof -
  have "replace_all (placeholder k) new (pre @ CHR ''$'' # (''{var.'' @ n @ ''}'' @ post))
        = replace_all (placeholder k) new pre
          @ replace_all (placeholder k) new (CHR ''$'' # (''{var.'' @ n @ ''}'' @ post))"
    using assms(1) by (intro replace_all_split) (simp_all add: placeholder_def)
  then show ?thesis
    using replace_all_other[of k n new post] assms by (simp add: placeholder_Cons)
qed

lemma substitute_keeps:
  assumes "list_all (\<lambda>k. CHR ''$'' \<notin> set k \<and> CHR ''}'' \<notin> set k) (map fst tbl)"
    and "CHR ''$'' \<notin> set n" "CHR ''}'' \<notin> set n" "n \<notin> set (map fst tbl)"
  shows "substitute tbl (pre @ placeholder n @ post)
         = substitute tbl pre @ placeholder n @ substitute tbl post"
  using assms(1,4)
proof (induction tbl arbitrary: pre post)
  case Nil
  then show ?case by (simp add: substitute_def)
next
  case (Cons kv tbl)
  have s: "\<And>t. substitute (kv # tbl) t
             = substitute tbl (replace_all (placeholder (fst kv)) (py_str (snd kv)) t)"
    by (simp add: substitute_def py_replace_def)
  have "replace_all (placeholder (fst kv)) (py_str (snd kv)) (pre @ placeholder n @ post)
        = replace_all (placeholder (fst kv)) (py_str (snd kv)) pre @ placeholder n
          @ replace_all (placeholder (fst kv)) (py_str (snd kv)) post"
    using Cons.prems assms(2,3) by (intro replace_all_keeps) auto
  then show ?case
    using Cons.IH Cons.prems by (simp add: s)
qed

definition sample_vars :: "TerraformVariable list" where
  "sample_vars =
     [\<lparr>var_name = ''name'', var_type = ''string'', var_description = ''Instance name'',
       var_default = VNone, var_required = True, var_sensitive = False\<rparr>,
      \<lparr>var_name = ''ami_id'', var_type = ''string'', var_description = ''AMI ID'',
       var_default = VNone, var_required = True, var_sensitive = False\<rparr>,
      \<lparr>var_name = ''instance_type'', var_type = ''string'', var_description = ''Type'',
       var_default = VStr ''t3.micro'', var_required = False, var_sensitive = False\<rparr>]"

definition sample_outputs :: "TerraformOutput list" where
  "sample_outputs =
     [\<lparr>out_name = ''instance_id'', out_description = ''EC2 Instance ID'',
       out_value_expression = ''aws_instance.main.id'', out_sensitive = False\<rparr>]"

definition simple_segs :: "segment list" where
  "simple_segs =
     [Lit (''resource '' @ [CHR 0x22] @ ''aws_instance'' @ [CHR 0x22] @ '' '' @ [CHR 0x22]),
      Ph ''name'',
      Lit ([CHR 0x22] @ '' {'' @ [CHR 0x0A] @ ''  ami           = '' @ [CHR 0x22]),
      Ph ''ami_id'',
      Lit ([CHR 0x22, CHR 0x0A] @ ''  instance_type = '' @ [CHR 0x22]),
      Ph ''instance_type'',
      Lit [CHR 0x22, CHR 0x0A, CHR ''}'']]"

definition gen_test_module :: TerraformModule where
  "gen_test_module =
     \<lparr>mod_id = ''3f2b8c1e-uuid'', mod_name = ''gen_test'', provider = ''aws'',
      resource_type = ''aws_instance'', version = ''1.0.0'', description = '''',
      hcl_template = template_text simple_segs, variables = sample_vars,
      outputs = sample_outputs, examples = [], tags = [], created_at = ''2024-01-01T00:00:00'',
      download_count = 0\<rparr>"

lemma simple_segs_text: "template_text simple_segs = simple_hcl"
  by (simp add: template_text_def simple_segs_def simple_hcl_def placeholder_def)

definition gen_test_store :: "Row list" where
  "gen_test_store = [module_row gen_test_module]"

lemma gen_test_registered:
  "register_module [] ''3f2b8c1e-uuid'' ''2024-01-01T00:00:00'' ''gen_test'' ''aws'' ''aws_instance''
     (template_text simple_segs) sample_vars sample_outputs '''' None None ''1.0.0''
   = (Inr gen_test_module, gen_test_store)"
  by code_simp

lemma gen_test_get: "get_module gen_test_store ''gen_test'' = Inr gen_test_module"
  by code_simp

theorem generate_tf_missing_witness:
  "generate_tf gen_test_store ''gen_test'' []
     = (Inl (MissingVariables [''name'', ''ami_id'']), gen_test_store)
   \<and> (\<exists>text st'. generate_tf gen_test_store ''gen_test''
                     [(''name'', VStr ''my-server''), (''ami_id'', VStr ''ami-123'')] = (Inr text, st')
         \<and> get_module st' ''gen_test'' = Inr (gen_test_module\<lparr>download_count := 1\<rparr>))"
  using generate_tf_missing [OF gen_test_get, of "[]"]
    generate_tf_missing [OF gen_test_get, of "[(''name'', VStr ''my-server''), (''ami_id'', VStr ''ami-123'')]"]
  by (simp add: is_missing_def gen_test_module_def sample_vars_def)




lemma generate_tf_render:
  assumes g: "get_module st ref = Inr m"
    and nm: "\<forall>v \<in> set (variables m). \<not> is_missing vars v"
    and d: "distinct (map fst vars)"
    and t: "hcl_template m = template_text segs"
    and cs: "clean_template segs"
    and ct: "clean_table (merged_values m vars)"
  shows "fst (generate_tf st ref vars) = Inr (render (merged_spec m vars) segs)"
proof -
  have "missing_variables m vars = []"
    using nm by (simp add: missing_variables_spec filter_empty_conv)
  then show ?thesis
    using substitute_render[OF cs ct] merged_values_lookup[OF d, of m] t
    by (simp add: generate_tf_unfold[OF g])
qed

text \<open>
  C1, amended. When no required variable without a default is left unsupplied,
  \<open>generate_tf\<close> succeeds, with the template after the replacements of the merged table,
  made one entry after the other on the text so far. The merged table holds, for a name
  the caller supplies, the caller's value, and for any other name the variable's default:
  a default without an override is in the table as the default, an override as the
  override. When moreover the template is a sequence of literal text and placeholders,
  where \<open>${var.\<close> begins nowhere in a literal piece (neither in full nor cut short by the
  piece's end) and no placeholder's name has \<open>$\<close> or \<open>}\<close>, no name in the merged table
  contains \<open>}\<close>, and \<open>${var.\<close> begins nowhere in a value's string form, the text returned is
  the template with every placeholder of a name in the table replaced by the string form
  of its value, and every other placeholder left as it is.
\<close>

theorem generate_tf_substitutes:
  assumes "get_module st ref = Inr m"
    and "\<forall>v \<in> set (variables m). \<not> is_missing vars v"
    and "distinct (map fst vars)"
  shows "fst (generate_tf st ref vars) = Inr (substitute (merged_values m vars) (hcl_template m))
     \<and> (\<forall>k. map_of (merged_values m vars) k
            = (case map_of vars k of Some x \<Rightarrow> Some x | None \<Rightarrow> default_of (variables m) k))
     \<and> (\<forall>k d. default_of (variables m) k = Some d \<and> map_of vars k = None
            \<longrightarrow> map_of (merged_values m vars) k = Some d)
     \<and> (\<forall>k x. map_of vars k = Some x \<longrightarrow> map_of (merged_values m vars) k = Some x)
     \<and> (\<forall>segs. hcl_template m = template_text segs \<and> clean_template segs
                \<and> clean_table (merged_values m vars)
            \<longrightarrow> fst (generate_tf st ref vars)
                 = Inr (render (map_of (merged_values m vars)) segs))"
proof -
  have "missing_variables m vars = []"
    using assms(2) by (simp add: missing_variables_spec filter_empty_conv)
  then have 1: "fst (generate_tf st ref vars)
                = Inr (substitute (merged_values m vars) (hcl_template m))"
    by (simp add: generate_tf_unfold[OF assms(1)])
  have 2: "map_of (merged_values m vars) = merged_spec m vars"
    by (rule merged_values_lookup[OF assms(3)])
  have 3: "\<And>segs. hcl_template m = template_text segs \<Longrightarrow> clean_template segs
                \<Longrightarrow> clean_table (merged_values m vars)
            \<Longrightarrow> fst (generate_tf st ref vars) = Inr (render (map_of (merged_values m vars)) segs)"
    using generate_tf_render[OF assms] 2 by simp
  show ?thesis
    using 1 3 by (simp add: 2 merged_spec_def)
qed

definition simple_rendered :: "string \<Rightarrow> string" where
  "simple_rendered itype =
     ''resource '' @ [CHR 0x22] @ ''aws_instance'' @ [CHR 0x22] @ '' '' @ [CHR 0x22] @ ''my-server''
       @ [CHR 0x22] @ '' {'' @ [CHR 0x0A]
     @ ''  ami           = '' @ [CHR 0x22] @ ''ami-123'' @ [CHR 0x22, CHR 0x0A]
     @ ''  instance_type = '' @ [CHR 0x22] @ itype @ [CHR 0x22, CHR 0x0A]
     @ ''}''"

theorem generate_tf_substitutes_witness:
  "fst (generate_tf gen_test_store ''gen_test''
          [(''name'', VStr ''my-server''), (''ami_id'', VStr ''ami-123'')])
     = Inr (simple_rendered ''t3.micro'')
   \<and> fst (generate_tf gen_test_store ''gen_test''
          [(''name'', VStr ''my-server''), (''ami_id'', VStr ''ami-123''),
           (''instance_type'', VStr ''m5.large'')])
     = Inr (simple_rendered ''m5.large'')"
proof -
  let ?v1 = "[(''name'', VStr ''my-server''), (''ami_id'', VStr ''ami-123'')]"
  let ?v2 = "[(''name'', VStr ''my-server''), (''ami_id'', VStr ''ami-123''),
              (''instance_type'', VStr ''m5.large'')]"
  have m: "\<forall>v \<in> set (variables gen_test_module). \<not> is_missing ?v1 v"
    "\<forall>v \<in> set (variables gen_test_module). \<not> is_missing ?v2 v"
    by (simp_all add: is_missing_def gen_test_module_def sample_vars_def)
  have d: "distinct (map fst ?v1)" "distinct (map fst ?v2)" by simp_all
  have t: "hcl_template gen_test_module = template_text simple_segs"
    by (simp add: gen_test_module_def)
  have c: "clean_template simple_segs" "clean_table (merged_values gen_test_module ?v1)"
    "clean_table (merged_values gen_test_module ?v2)"
    by code_simp+
  have r: "render (map_of (merged_values gen_test_module ?v1)) simple_segs
           = simple_rendered ''t3.micro''"
    "render (map_of (merged_values gen_test_module ?v2)) simple_segs
           = simple_rendered ''m5.large''"
    by code_simp+
  from generate_tf_substitutes [OF gen_test_get m(1) d(1)]
  have "hcl_template gen_test_module = template_text simple_segs \<and> clean_template simple_segs
          \<and> clean_table (merged_values gen_test_module ?v1)
        \<longrightarrow> fst (generate_tf gen_test_store ''gen_test'' ?v1)
             = Inr (render (map_of (merged_values gen_test_module ?v1)) simple_segs)"
    by blast
  moreover from generate_tf_substitutes [OF gen_test_get m(2) d(2)]
  have "hcl_template gen_test_module = template_text simple_segs \<and> clean_template simple_segs
          \<and> clean_table (merged_values gen_test_module ?v2)
        \<longrightarrow> fst (generate_tf gen_test_store ''gen_test'' ?v2)
             = Inr (render (map_of (merged_values gen_test_module ?v2)) simple_segs)"
    by blast
  ultimately show ?thesis using t c r by simp
qed

definition nested_var :: "string \<Rightarrow> pyval \<Rightarrow> TerraformVariable" where
  "nested_var n d =
     \<lparr>var_name = n, var_type = ''string'', var_description = '''', var_default = d,
      var_required = False, var_sensitive = False\<rparr>"

definition nested_module :: "TerraformVariable list \<Rightarrow> string \<Rightarrow> TerraformModule" where
  "nested_module vs template =
     \<lparr>mod_id = ''9a1d-uuid'', mod_name = ''nested'', provider = ''null'',
      resource_type = ''null_resource'', version = ''1.0.0'', description = '''',
      hcl_template = template, variables = vs, outputs = [], examples = [], tags = [],
      created_at = ''2024-01-01T00:00:00'', download_count = 0\<rparr>"

definition xy_module :: TerraformModule where
  "xy_module = nested_module [nested_var ''x'' (VStr ''${var.y}''), nested_var ''y'' (VStr ''1'')]
                 (template_text [Ph ''x''])"

definition yx_module :: TerraformModule where
  "yx_module = nested_module [nested_var ''y'' (VStr ''1''), nested_var ''x'' (VStr ''${var.y}'')]
                 (template_text [Ph ''x''])"

text \<open>
  C1, as stated: the text returned is the template with each occurrence of a table
  name's placeholder replaced by that value's string form. The replacements run one
  table entry after another on the text so far, so a value that holds the placeholder of
  a later entry is substituted again: the two modules below have the same template
  \<open>${var.x}\<close> and the same merged table (\<open>x\<close> is \<open>${var.y}\<close>, \<open>y\<close> is \<open>1\<close>), declared in two
  orders, and render as \<open>1\<close> and as \<open>${var.y}\<close>.
\<close>

theorem generate_tf_order_counterexample:
  "get_module [module_row xy_module] ''nested'' = Inr xy_module
   \<and> get_module [module_row yx_module] ''nested'' = Inr yx_module
   \<and> hcl_template xy_module = hcl_template yx_module
   \<and> merged_spec xy_module [] = merged_spec yx_module []
   \<and> render (merged_spec xy_module []) [Ph ''x''] = ''${var.y}''
   \<and> fst (generate_tf [module_row xy_module] ''nested'' []) = Inr ''1''
   \<and> fst (generate_tf [module_row yx_module] ''nested'' []) = Inr ''${var.y}''"
proof -
  have "merged_spec xy_module [] = merged_spec yx_module []"
    by (rule ext)
      (auto simp: merged_spec_def default_of_def xy_module_def yx_module_def nested_module_def
        nested_var_def)
  moreover have "get_module [module_row xy_module] ''nested'' = Inr xy_module"
    "get_module [module_row yx_module] ''nested'' = Inr yx_module"
    "hcl_template xy_module = hcl_template yx_module"
    "render (merged_spec xy_module []) [Ph ''x''] = ''${var.y}''"
    "fst (generate_tf [module_row xy_module] ''nested'' []) = Inr ''1''"
    "fst (generate_tf [module_row yx_module] ''nested'' []) = Inr ''${var.y}''"
    by code_simp+
  ultimately show ?thesis by simp
qed

lemma default_of_none:
  assumes "v \<in> set vs" "var_name v = n" "var_default v = VNone" "distinct (map var_name vs)"
  shows "default_of vs n = None"
proof -
  have "inj_on var_name (set vs)"
    using assms(4) by (simp add: distinct_map)
  then have "\<And>w. w \<in> set vs \<Longrightarrow> var_name w = n \<Longrightarrow> w = v"
    using assms(1,2) by (auto dest: inj_onD)
  then have "\<not> (\<exists>w. w \<in> set (rev vs) \<and> var_name w = n \<and> var_default w \<noteq> VNone)"
    using assms(3) by auto
  then have "find (\<lambda>w. var_name w = n \<and> var_default w \<noteq> VNone) (rev vs) = None"
    by (simp add: find_None_iff)
  then show ?thesis by (simp add: default_of_def)
qed

text \<open>
  C6, amended. Let the template hold the placeholder of a variable that has no default,
  is not required and gets no value from the caller, in a module whose variable names
  are distinct, and let neither that name nor any name of the merged table contain \<open>$\<close>
  or \<open>}\<close>. Then the variable is not missing, and when no variable is missing
  \<open>generate_tf\<close> returns the text before the placeholder, substituted, the placeholder as
  it is, and the text after it, substituted.
\<close>

theorem generate_tf_passes_through:
  assumes g: "get_module st ref = Inr m"
    and v: "v \<in> set (variables m)" "var_name v = n" "var_default v = VNone" "\<not> var_required v"
    and dn: "distinct (map var_name (variables m))"
    and dv: "distinct (map fst vars)"
    and nv: "map_of vars n = None"
    and t: "hcl_template m = pre @ placeholder n @ post"
    and names: "list_all (\<lambda>k. CHR ''$'' \<notin> set k \<and> CHR ''}'' \<notin> set k)
                  (n # map fst (merged_values m vars))"
  shows "\<not> is_missing vars v
     \<and> ((\<forall>w \<in> set (variables m). \<not> is_missing vars w) \<longrightarrow>
          fst (generate_tf st ref vars)
            = Inr (substitute (merged_values m vars) pre @ placeholder n
                   @ substitute (merged_values m vars) post))"
proof -
  have "map_of (merged_values m vars) n = None"
    using merged_values_lookup[OF dv, of m] default_of_none[OF v(1,2,3) dn] nv
    by (simp add: merged_spec_def)
  then have n: "n \<notin> set (map fst (merged_values m vars))"
    by (simp add: map_of_eq_None_iff)
  have k: "substitute (merged_values m vars) (pre @ placeholder n @ post)
           = substitute (merged_values m vars) pre @ placeholder n
             @ substitute (merged_values m vars) post"
    using names n by (intro substitute_keeps) simp_all
  have "(\<forall>w \<in> set (variables m). \<not> is_missing vars w) \<Longrightarrow> missing_variables m vars = []"
    by (simp add: missing_variables_spec filter_empty_conv)
  then show ?thesis
    using v(4) k t by (auto simp: is_missing_def generate_tf_unfold[OF g])
qed

definition tagged_module :: TerraformModule where
  "tagged_module =
     nested_module [nested_var ''opt'' VNone] (''tag = '' @ placeholder ''opt'' @ '' # ${var.zone}'')"

theorem generate_tf_passes_through_witness:
  "fst (generate_tf [module_row tagged_module] ''nested'' [(''zone'', VStr ''eu'')])
   = Inr ''tag = ${var.opt} # eu''"
proof -
  let ?vars = "[(''zone'', VStr ''eu'')]"
  have g: "get_module [module_row tagged_module] ''nested'' = Inr tagged_module"
    by code_simp
  have v: "nested_var ''opt'' VNone \<in> set (variables tagged_module)"
    "var_name (nested_var ''opt'' VNone) = ''opt''"
    "var_default (nested_var ''opt'' VNone) = VNone"
    "\<not> var_required (nested_var ''opt'' VNone)"
    "distinct (map var_name (variables tagged_module))"
    by (simp_all add: tagged_module_def nested_module_def nested_var_def)
  have d: "distinct (map fst ?vars)" "map_of ?vars ''opt'' = None" by simp_all
  have t: "hcl_template tagged_module = ''tag = '' @ placeholder ''opt'' @ '' # ${var.zone}''"
    by (simp add: tagged_module_def nested_module_def)
  have n: "list_all (\<lambda>k. CHR ''$'' \<notin> set k \<and> CHR ''}'' \<notin> set k)
             (''opt'' # map fst (merged_values tagged_module ?vars))"
    by code_simp
  have m: "\<forall>w \<in> set (variables tagged_module). \<not> is_missing ?vars w"
    by (simp add: tagged_module_def nested_module_def nested_var_def is_missing_def)
  have s: "substitute (merged_values tagged_module ?vars) ''tag = '' @ placeholder ''opt''
            @ substitute (merged_values tagged_module ?vars) '' # ${var.zone}''
           = ''tag = ${var.opt} # eu''"
    by code_simp
  from generate_tf_passes_through [OF g v d t n] m s show ?thesis by simp
qed

definition swallow_module :: TerraformModule where
  "swallow_module = nested_module [nested_var ''opt'' VNone] (''${var.a}'' @ placeholder ''opt'')"

text \<open>
  C6, as stated: the placeholder of a variable without default, not required and not
  supplied stays in the output. A caller's key may itself end in \<open>}${var.opt\<close>: its
  placeholder then covers the one of \<open>opt\<close>, and the replacement takes both away.
\<close>

theorem generate_tf_swallow_counterexample:
  "get_module [module_row swallow_module] ''nested'' = Inr swallow_module
   \<and> variables swallow_module = [nested_var ''opt'' VNone]
   \<and> var_default (nested_var ''opt'' VNone) = VNone
   \<and> \<not> var_required (nested_var ''opt'' VNone)
   \<and> map_of [(''a}${var.opt'', VStr ''gone'')] ''opt'' = None
   \<and> hcl_template swallow_module = ''${var.a}'' @ placeholder ''opt''
   \<and> fst (generate_tf [module_row swallow_module] ''nested'' [(''a}${var.opt'', VStr ''gone'')])
       = Inr ''gone''
   \<and> \<not> contains (placeholder ''opt'') ''gone''"
  by code_simp

lemma map_of_filter_key:
  "map_of (filter (\<lambda>kv. fst kv \<noteq> k) vars) j = (if j = k then None else map_of vars j)"
  by (induction vars) auto

text \<open>
  C10, amended. A caller's key that no variable declares does not make \<open>generate_tf\<close>
  fail (it fails with the key if and only if it fails without it), and the key is in
  the merged table with the caller's value, the other names being mapped as without it.
  When moreover no variable is missing, the template is a sequence of literal text and
  placeholders, where \<open>${var.\<close> begins nowhere in a literal piece (neither in full nor cut
  short by the piece's end) and no placeholder's name has \<open>$\<close> or \<open>}\<close>, no name in the merged
  table contains \<open>}\<close>, and \<open>${var.\<close> begins nowhere in a value's string form, the text
  returned is the template rendered under the table of the other entries extended by the
  key: every \<open>${var.<key>}\<close> is replaced by the string form of the caller's value.
\<close>

theorem generate_tf_extra_key:
  assumes g: "get_module st ref = Inr m"
    and dv: "distinct (map fst vars)"
    and kx: "map_of vars k = Some x"
    and un: "k \<notin> set (map var_name (variables m))"
  shows "((\<exists>e. fst (generate_tf st ref vars) = Inl e)
          = (\<exists>e. fst (generate_tf st ref (filter (\<lambda>kv. fst kv \<noteq> k) vars)) = Inl e))
     \<and> map_of (merged_values m vars) k = Some x
     \<and> (\<forall>j. j \<noteq> k \<longrightarrow> map_of (merged_values m vars) j
                         = map_of (merged_values m (filter (\<lambda>kv. fst kv \<noteq> k) vars)) j)
     \<and> (\<forall>segs. (\<forall>v \<in> set (variables m). \<not> is_missing vars v)
                \<and> hcl_template m = template_text segs \<and> clean_template segs
                \<and> clean_table (merged_values m vars)
            \<longrightarrow> fst (generate_tf st ref vars)
                 = Inr (render ((map_of (merged_values m (filter (\<lambda>kv. fst kv \<noteq> k) vars)))
                                  (k \<mapsto> x)) segs))"
proof -
  let ?vars' = "filter (\<lambda>kv. fst kv \<noteq> k) vars"
  have i: "\<And>v. v \<in> set (variables m) \<Longrightarrow> is_missing ?vars' v = is_missing vars v"
    using un by (auto simp: is_missing_def map_of_filter_key)
  then have "filter (is_missing ?vars') (variables m) = filter (is_missing vars) (variables m)"
    by (intro filter_cong) simp_all
  then have a: "missing_variables m ?vars' = missing_variables m vars"
    by (simp add: missing_variables_spec)
  have b: "map_of (merged_values m vars) k = Some x"
    using kx by (simp add: merged_values_lookup[OF dv] merged_spec_def)
  have c: "merged_spec m vars = (merged_spec m ?vars')(k \<mapsto> x)"
    using kx by (auto simp: merged_spec_def map_of_filter_key fun_eq_iff)
  have dv': "distinct (map fst ?vars')"
    using dv by (simp add: distinct_map_filter)
  have o: "map_of (merged_values m ?vars') = merged_spec m ?vars'"
    by (rule merged_values_lookup[OF dv'])
  have e: "(\<exists>e. fst (generate_tf st ref vars) = Inl e)
           = (\<exists>e. fst (generate_tf st ref ?vars') = Inl e)"
    using a by (auto simp: generate_tf_unfold[OF g])
  have j: "\<And>j. j \<noteq> k \<Longrightarrow> map_of (merged_values m vars) j = map_of (merged_values m ?vars') j"
    by (simp add: o merged_values_lookup[OF dv] c)
  have r: "\<And>segs. (\<forall>v \<in> set (variables m). \<not> is_missing vars v)
             \<Longrightarrow> hcl_template m = template_text segs \<Longrightarrow> clean_template segs
             \<Longrightarrow> clean_table (merged_values m vars)
             \<Longrightarrow> fst (generate_tf st ref vars)
                 = Inr (render ((map_of (merged_values m ?vars'))(k \<mapsto> x)) segs)"
    using generate_tf_render[OF g _ dv] c o by simp
  show ?thesis
    using e b j r by blast
qed

definition owned_module :: TerraformModule where
  "owned_module =
     nested_module [nested_var ''name'' VNone]
       (template_text [Lit ''name = '', Ph ''name'', Lit '' # ${local.env} '', Ph ''owner''])"

theorem generate_tf_extra_key_witness:
  "map_of (merged_values owned_module [(''name'', VStr ''web''), (''owner'', VStr ''ops'')]) ''owner''
     = Some (VStr ''ops'')
   \<and> fst (generate_tf [module_row owned_module] ''nested''
            [(''name'', VStr ''web''), (''owner'', VStr ''ops'')])
     = Inr ''name = web # ${local.env} ops''
   \<and> fst (generate_tf [module_row owned_module] ''nested'' [(''name'', VStr ''web'')])
     = Inr ''name = web # ${local.env} ${var.owner}''"
proof -
  let ?vars = "[(''name'', VStr ''web''), (''owner'', VStr ''ops'')]"
  have g: "get_module [module_row owned_module] ''nested'' = Inr owned_module"
    by code_simp
  have h: "distinct (map fst ?vars)" "map_of ?vars ''owner'' = Some (VStr ''ops'')"
    "''owner'' \<notin> set (map var_name (variables owned_module))"
    "hcl_template owned_module
     = template_text [Lit ''name = '', Ph ''name'', Lit '' # ${local.env} '', Ph ''owner'']"
    by (simp_all add: owned_module_def nested_module_def nested_var_def)
  have c: "clean_template [Lit ''name = '', Ph ''name'', Lit '' # ${local.env} '', Ph ''owner'']"
    "clean_table (merged_values owned_module ?vars)"
    by code_simp+
  have m: "\<forall>v \<in> set (variables owned_module). \<not> is_missing ?vars v"
    by (simp add: owned_module_def nested_module_def nested_var_def is_missing_def)
  have r: "render ((map_of (merged_values owned_module (filter (\<lambda>kv. fst kv \<noteq> ''owner'') ?vars)))
                     (''owner'' \<mapsto> VStr ''ops''))
             [Lit ''name = '', Ph ''name'', Lit '' # ${local.env} '', Ph ''owner'']
           = ''name = web # ${local.env} ops''"
    by (simp add: render_def merged_values_def dict_update_def dict_set_def owned_module_def
        nested_module_def nested_var_def py_str_def placeholder_def)
  have w: "fst (generate_tf [module_row owned_module] ''nested'' [(''name'', VStr ''web'')])
           = Inr ''name = web # ${local.env} ${var.owner}''"
    by code_simp
  from generate_tf_extra_key [OF g h(1,2,3)]
  have "map_of (merged_values owned_module ?vars) ''owner'' = Some (VStr ''ops'')"
    and "(\<forall>v \<in> set (variables owned_module). \<not> is_missing ?vars v)
         \<and> hcl_template owned_module
             = template_text [Lit ''name = '', Ph ''name'', Lit '' # ${local.env} '', Ph ''owner'']
         \<and> clean_template [Lit ''name = '', Ph ''name'', Lit '' # ${local.env} '', Ph ''owner'']
         \<and> clean_table (merged_values owned_module ?vars)
        \<longrightarrow> fst (generate_tf [module_row owned_module] ''nested'' ?vars)
             = Inr (render ((map_of (merged_values owned_module
                                       (filter (\<lambda>kv. fst kv \<noteq> ''owner'') ?vars)))
                              (''owner'' \<mapsto> VStr ''ops''))
                      [Lit ''name = '', Ph ''name'', Lit '' # ${local.env} '', Ph ''owner''])"
    by blast+
  with h(4) c m r w show ?thesis by simp
qed

definition bare_module :: TerraformModule where
  "bare_module = nested_module [] (template_text [Ph ''k''])"

text \<open>
  C10, as stated: every occurrence of the placeholder of an undeclared key is replaced
  by the string form of its value. The value is put in, and then the entries after it
  are replaced in it: here the template \<open>${var.k}\<close> with \<open>k\<close> as \<open>A${var.z}\<close> and \<open>z\<close> as \<open>B\<close>
  renders as \<open>AB\<close>, not as \<open>A${var.z}\<close>.
\<close>

theorem generate_tf_again_counterexample:
  "get_module [module_row bare_module] ''nested'' = Inr bare_module
   \<and> variables bare_module = []
   \<and> hcl_template bare_module = placeholder ''k''
   \<and> map_of [(''k'', VStr ''A${var.z}''), (''z'', VStr ''B'')] ''k'' = Some (VStr ''A${var.z}'')
   \<and> render (merged_spec bare_module [(''k'', VStr ''A${var.z}''), (''z'', VStr ''B'')]) [Ph ''k'']
       = ''A${var.z}''
   \<and> fst (generate_tf [module_row bare_module] ''nested''
            [(''k'', VStr ''A${var.z}''), (''z'', VStr ''B'')])
       = Inr ''AB''"
  by code_simp

section \<open>Verification: deletion\<close>

lemma get_module_matches:
  "get_module st ref = Inr m \<Longrightarrow>
   \<exists>r \<in> set st. (row_id r = ref \<or> row_name r = ref) \<and> row_id r = mod_id m"
proof -
  assume g: "get_module st ref = Inr m"
  then obtain r where f: "fetchone st ref = Some r"
    and r: "row_to_module r = Inr m"
    by (auto simp: get_module_def split: option.splits)
  from fetchone_Some[OF f] row_to_module_id[OF r] show ?thesis by auto
qed

text \<open>
  C9, amended. \<open>delete_module\<close> on a reference that matches no stored row returns
  \<open>False\<close>, without an error, and leaves the store as it was. On a reference that
  resolves to a module it removes the rows of that module's id (at least one) and
  returns \<open>True\<close>; when every stored row that matches the reference, by id or by name,
  has that id, a following \<open>get_module\<close> by the same reference fails with \<open>KeyError\<close>.
\<close>

theorem delete_module_spec:
  "((\<forall>r \<in> set st. row_id r \<noteq> ref \<and> row_name r \<noteq> ref) \<longrightarrow>
      delete_module st ref = (Inr False, st))
   \<and> (get_module st ref = Inr m \<longrightarrow>
        delete_module st ref = (Inr True, filter (\<lambda>r. row_id r \<noteq> mod_id m) st)
        \<and> length (filter (\<lambda>r. row_id r \<noteq> mod_id m) st) < length st
        \<and> ((\<forall>r \<in> set st. row_id r = ref \<or> row_name r = ref \<longrightarrow> row_id r = mod_id m) \<longrightarrow>
             get_module (snd (delete_module st ref)) ref = Inl (KeyError ref)))"
proof -
  have a: "(\<forall>r \<in> set st. row_id r \<noteq> ref \<and> row_name r \<noteq> ref) \<Longrightarrow>
           delete_module st ref = (Inr False, st)"
  proof -
    assume "\<forall>r \<in> set st. row_id r \<noteq> ref \<and> row_name r \<noteq> ref"
    then have "fetchone st ref = None"
      by (simp add: fetchone_None)
    then show ?thesis by (simp add: delete_module_def get_module_def)
  qed
  have b: "get_module st ref = Inr m \<Longrightarrow>
           length (filter (\<lambda>r. row_id r \<noteq> mod_id m) st) < length st"
  proof -
    assume "get_module st ref = Inr m"
    from get_module_matches[OF this] obtain r where "r \<in> set st" "row_id r = mod_id m" by auto
    then show ?thesis by (intro length_filter_less[of r]) auto
  qed
  have c: "(\<forall>r \<in> set st. row_id r = ref \<or> row_name r = ref \<longrightarrow> row_id r = mod_id m) \<Longrightarrow>
       get_module (filter (\<lambda>r. row_id r \<noteq> mod_id m) st) ref = Inl (KeyError ref)"
  proof -
    assume "\<forall>r \<in> set st. row_id r = ref \<or> row_name r = ref \<longrightarrow> row_id r = mod_id m"
    then have "fetchone (filter (\<lambda>r. row_id r \<noteq> mod_id m) st) ref = None"
      by (auto simp: fetchone_None)
    then show ?thesis by (simp add: get_module_def)
  qed
  show ?thesis using a b c by (auto simp: delete_module_def)
qed

definition null_hcl :: string where
  "null_hcl = ''resource '' @ [CHR 0x22] @ ''null_resource'' @ [CHR 0x22] @ '' '' @ [CHR 0x22]
              @ ''x'' @ [CHR 0x22] @ '' {}''"

definition to_delete_module :: "string \<Rightarrow> string \<Rightarrow> TerraformModule" where
  "to_delete_module i n =
     \<lparr>mod_id = i, mod_name = n, provider = ''null'', resource_type = ''null_resource'',
      version = ''1.0.0'', description = '''', hcl_template = null_hcl, variables = [],
      outputs = [], examples = [], tags = [], created_at = ''2024-01-01T00:00:00'',
      download_count = 0\<rparr>"

theorem delete_module_spec_witness:
  "delete_module [module_row (to_delete_module ''7c0e-uuid'' ''to_delete'')] ''nonexistent-id''
     = (Inr False, [module_row (to_delete_module ''7c0e-uuid'' ''to_delete'')])
   \<and> delete_module [module_row (to_delete_module ''7c0e-uuid'' ''to_delete'')] ''7c0e-uuid''
     = (Inr True, [])
   \<and> get_module (snd (delete_module [module_row (to_delete_module ''7c0e-uuid'' ''to_delete'')]
                         ''7c0e-uuid'')) ''7c0e-uuid''
     = Inl (KeyError ''7c0e-uuid'')"
proof -
  let ?m = "to_delete_module ''7c0e-uuid'' ''to_delete''"
  have g: "get_module [module_row ?m] ''7c0e-uuid'' = Inr ?m"
    by code_simp
  have i: "mod_id ?m = ''7c0e-uuid''" "row_id (module_row ?m) = ''7c0e-uuid''"
    "row_name (module_row ?m) = ''to_delete''"
    by (simp_all add: to_delete_module_def module_row_def)
  have e: "get_module [] ''7c0e-uuid'' = Inl (KeyError ''7c0e-uuid'')"
    by (simp add: get_module_def fetchone_def)
  from delete_module_spec [of "[module_row ?m]" "''nonexistent-id''" ?m]
    delete_module_spec [of "[module_row ?m]" "''7c0e-uuid''" ?m] g i e
  show ?thesis by simp
qed

text \<open>
  C9, as stated: after the deletion of a known reference, \<open>get_module\<close> by that
  reference fails. A reference matches by id or by name, and a name is free text: once
  a module is registered under the id of another as its name, the reference matches
  both, the deletion removes the one of that id, and \<open>get_module\<close> finds the other.
\<close>

theorem delete_module_shared_reference_counterexample:
  "register_module [] ''7c0e-uuid'' ''2024-01-01T00:00:00'' ''first'' ''null'' ''null_resource'' null_hcl
       [] [] '''' None None ''1.0.0''
     = (Inr (to_delete_module ''7c0e-uuid'' ''first''),
        [module_row (to_delete_module ''7c0e-uuid'' ''first'')])
   \<and> register_module [module_row (to_delete_module ''7c0e-uuid'' ''first'')] ''51aa-uuid''
       ''2024-01-01T00:00:00'' ''7c0e-uuid'' ''null'' ''null_resource'' null_hcl
       [] [] '''' None None ''1.0.0''
     = (Inr (to_delete_module ''51aa-uuid'' ''7c0e-uuid''),
        [module_row (to_delete_module ''7c0e-uuid'' ''first''),
         module_row (to_delete_module ''51aa-uuid'' ''7c0e-uuid'')])
   \<and> delete_module [module_row (to_delete_module ''7c0e-uuid'' ''first''),
                     module_row (to_delete_module ''51aa-uuid'' ''7c0e-uuid'')] ''7c0e-uuid''
     = (Inr True, [module_row (to_delete_module ''51aa-uuid'' ''7c0e-uuid'')])
   \<and> get_module [module_row (to_delete_module ''51aa-uuid'' ''7c0e-uuid'')] ''7c0e-uuid''
     = Inr (to_delete_module ''51aa-uuid'' ''7c0e-uuid'')"
  by code_simp

section \<open>Verification: plan export\<close>

lemma py_join_append:
  "xs \<noteq> [] \<Longrightarrow> ys \<noteq> [] \<Longrightarrow> py_join sep (xs @ ys) = py_join sep xs @ sep @ py_join sep ys"
proof (induction sep xs rule: py_join.induct)
  case (1 sep)
  then show ?case by simp
next
  case (2 sep x)
  then show ?case by (cases ys) auto
next
  case (3 sep x y xs)
  then show ?case by simp
qed

lemma py_join_snoc:
  "xs \<noteq> [] \<Longrightarrow> py_join sep (xs @ [y]) = py_join sep xs @ sep @ y"
  using py_join_append[of xs "[y]" sep] by simp

definition plan_footer :: "string \<Rightarrow> string" where
  "plan_footer rendered =
     [CHR 0x0A, CHR 0x0A] @ ''# '' @ box_rule 2 @ '' Rendered HCL '' @ box_rule 39
     @ [CHR 0x0A, CHR 0x0A] @ rendered"

lemma export_plan_text:
  assumes "generate_tf st ref vars = (Inr rendered, st')"
  shows "\<exists>head.
       (resource_blocks rendered \<noteq> [] \<longrightarrow>
          export_plan st ts ref vars
            = (Inr (head @ ''Plan: '' @ str_int (int (length (resource_blocks rendered)))
                    @ '' to add, 0 to change, 0 to destroy.'' @ plan_footer rendered), st'))
     \<and> (resource_blocks rendered = [] \<longrightarrow>
          export_plan st ts ref vars
            = (Inr (head @ ''# (no resource blocks detected in rendered template)''
                    @ [CHR 0x0A, CHR 0x0A] @ rendered @ plan_footer rendered), st'))"
proof -
  from assms obtain m where g: "get_module st ref = Inr m"
    by (cases "get_module st ref") (auto simp: generate_tf_def)
  define header where "header =
     [''# Terraform Plan Export'',
      ''# Module  : '' @ mod_name m @ '' v'' @ version m,
      ''# Provider : '' @ provider m,
      ''# Generated: '' @ ts,
      ''#'',
      ''# This plan shows what Terraform would create/modify.'',
      ''# Review carefully before applying.'',
      '''',
      ''# '' @ box_rule 2 @ '' Resource: '' @ resource_type m @ '' '' @ box_rule 30,
      '''']"
  define footer where "footer = ['''', ''# '' @ box_rule 2 @ '' Rendered HCL '' @ box_rule 39, '''', rendered]"
  have f: "\<And>xs. xs \<noteq> [] \<Longrightarrow> py_join [CHR 0x0A] (xs @ footer) = py_join [CHR 0x0A] xs @ plan_footer rendered"
    by (simp add: py_join_append footer_def plan_footer_def)
  have hn: "header \<noteq> []" by (simp add: header_def)
  show ?thesis
  proof (cases "resource_blocks rendered = []")
    case True
    define notice where "notice = ''# (no resource blocks detected in rendered template)''"
    have 1: "py_join [CHR 0x0A] ((header @ [notice, '''', rendered]) @ footer)
             = py_join [CHR 0x0A] (header @ [notice, '''', rendered]) @ plan_footer rendered"
      by (rule f) simp
    have 2: "py_join [CHR 0x0A] (header @ [notice, '''', rendered])
             = py_join [CHR 0x0A] header @ [CHR 0x0A] @ py_join [CHR 0x0A] [notice, '''', rendered]"
      using hn by (intro py_join_append) simp_all
    have 3: "py_join [CHR 0x0A] [notice, '''', rendered] = notice @ [CHR 0x0A, CHR 0x0A] @ rendered"
      by simp
    have e: "export_plan st ts ref vars
             = (Inr (py_join [CHR 0x0A] ((header @ [notice, '''', rendered]) @ footer)), st')"
      using True g assms
      by (simp add: export_plan_def Let_def header_def footer_def notice_def)
    have "export_plan st ts ref vars
          = (Inr ((py_join [CHR 0x0A] header @ [CHR 0x0A] @ notice @ [CHR 0x0A, CHR 0x0A] @ rendered)
                  @ plan_footer rendered), st')"
      by (simp only: e 1 2 3)
    then show ?thesis
      using True
      by (intro exI[of _ "py_join [CHR 0x0A] header @ [CHR 0x0A]"]) (simp add: notice_def)
  next
    case False
    define changes where "changes = header @ [''Changes to be applied:'', '''']
                                     @ concat (map plan_block (resource_blocks rendered))"
    define summary where "summary = ''Plan: '' @ str_int (int (length (resource_blocks rendered)))
                                     @ '' to add, 0 to change, 0 to destroy.''"
    have cn: "changes \<noteq> []" using hn by (simp add: changes_def)
    have 1: "py_join [CHR 0x0A] ((changes @ [summary]) @ footer)
             = py_join [CHR 0x0A] (changes @ [summary]) @ plan_footer rendered"
      by (rule f) simp
    have 2: "py_join [CHR 0x0A] (changes @ [summary]) = py_join [CHR 0x0A] changes @ [CHR 0x0A] @ summary"
      using cn by (rule py_join_snoc)
    have e: "export_plan st ts ref vars
             = (Inr (py_join [CHR 0x0A] ((changes @ [summary]) @ footer)), st')"
      using False g assms
      by (simp add: export_plan_def Let_def header_def footer_def changes_def summary_def)
    have "export_plan st ts ref vars
          = (Inr ((py_join [CHR 0x0A] changes @ [CHR 0x0A] @ summary) @ plan_footer rendered), st')"
      by (simp only: e 1 2)
    then show ?thesis
      using False
      by (intro exI[of _ "py_join [CHR 0x0A] changes @ [CHR 0x0A]"]) (simp add: summary_def)
  qed
qed

lemma finditer_skip: "finditer at k s = finditer at 0 (drop k s)"
proof (induction s arbitrary: k)
  case Nil
  then show ?case by simp
next
  case (Cons c s)
  show ?case
  proof (cases k)
    case 0
    then show ?thesis by simp
  next
    case (Suc k')
    with Cons[of k'] show ?thesis by simp
  qed
qed

lemma finditer_none:
  "(\<And>i. i < length s \<Longrightarrow> at (drop i s) = None) \<Longrightarrow> finditer at 0 s = []"
proof (induction s)
  case Nil
  then show ?case by simp
next
  case (Cons c s)
  from Cons.prems[of 0] have "at (c # s) = None" by simp
  moreover have "finditer at 0 s = []"
  proof (rule Cons.IH)
    fix i assume "i < length s"
    with Cons.prems[of "Suc i"] show "at (drop i s) = None" by simp
  qed
  ultimately show ?case by simp
qed

lemma finditer_some:
  "finditer at 0 s \<noteq> [] \<Longrightarrow> \<exists>i < length s. at (drop i s) \<noteq> None"
  using finditer_none[of s at] by blast

lemma finditer_first:
  assumes "\<And>i. i < length pre \<Longrightarrow> at (drop i (pre @ s)) = None"
    and "at s = Some (x, n)" "0 < n" "s \<noteq> []"
  shows "finditer at 0 (pre @ s) = x # finditer at 0 (drop n s)"
  using assms(1)
proof (induction pre)
  case Nil
  obtain c cs where s: "s = c # cs" using assms(4) by (cases s) auto
  obtain n' where n: "n = Suc n'" using assms(3) by (cases n) auto
  from assms(2) s n show ?case
    using finditer_skip[of at n' cs] by simp
next
  case (Cons c pre)
  from Cons.prems[of 0] have "at (c # pre @ s) = None" by simp
  moreover have "finditer at 0 (pre @ s) = x # finditer at 0 (drop n s)"
  proof (rule Cons.IH)
    fix i assume "i < length pre"
    with Cons.prems[of "Suc i"] show "at (drop i (pre @ s)) = None" by simp
  qed
  ultimately show ?case by simp
qed

lemma resource_at_pos:
  assumes "resource_at s = Some (x, n)"
  shows "0 < n \<and> s \<noteq> []"
proof -
  define r2 where "r2 = dropWhile is_space (drop 8 s)"
  define r3 where "r3 = dropWhile is_word (tl r2)"
  define r4 where "r4 = dropWhile is_space (tl r3)"
  define r5 where "r5 = dropWhile is_label (tl r4)"
  define r6 where "r6 = dropWhile is_space (tl r5)"
  define r7 where "r7 = dropWhile (\<lambda>c. c \<noteq> CHR ''}'') (tl r6)"
  from assms have p: "prefix ''resource'' s" and r: "r7 \<noteq> []"
    and n: "n = length s - length (tl r7)"
    by (auto simp: resource_at_def Let_def r2_def r3_def r4_def r5_def r6_def r7_def
        split: if_splits)
  have "suffix r2 s" unfolding r2_def
    by (meson suffix_drop suffix_dropWhile suffix_order.trans)
  then have "suffix r3 s" unfolding r3_def
    by (meson suffix_tl suffix_dropWhile suffix_order.trans)
  then have "suffix r4 s" unfolding r4_def
    by (meson suffix_tl suffix_dropWhile suffix_order.trans)
  then have "suffix r5 s" unfolding r5_def
    by (meson suffix_tl suffix_dropWhile suffix_order.trans)
  then have "suffix r6 s" unfolding r6_def
    by (meson suffix_tl suffix_dropWhile suffix_order.trans)
  then have "suffix r7 s" unfolding r7_def
    by (meson suffix_tl suffix_dropWhile suffix_order.trans)
  then have "length r7 \<le> length s" by (rule suffix_length_le)
  moreover have "length (tl r7) < length r7" using r by (cases r7) auto
  ultimately have "0 < n" using n by simp
  moreover from p have "s \<noteq> []" by auto
  ultimately show ?thesis by simp
qed

definition block_text :: "string \<Rightarrow> string \<Rightarrow> string \<Rightarrow> string \<Rightarrow> string \<Rightarrow> string \<Rightarrow> string" where
  \<comment> \<open>a resource block: the keyword, the type and the name in quotes, the body in
      braces, and the whitespace between them\<close>
  "block_text w1 rtype w2 rname w3 rbody =
     ''resource'' @ w1 @ [CHR 0x22] @ rtype @ [CHR 0x22] @ w2 @ [CHR 0x22] @ rname @ [CHR 0x22]
     @ w3 @ ''{'' @ rbody @ ''}''"

lemma takeWhile_run: "list_all P xs \<Longrightarrow> \<not> P y \<Longrightarrow> takeWhile P (xs @ y # ys) = xs"
  by (induction xs) auto

lemma dropWhile_run: "list_all P xs \<Longrightarrow> \<not> P y \<Longrightarrow> dropWhile P (xs @ y # ys) = y # ys"
  by (induction xs) auto

lemma quote_class: "\<not> is_space (CHR 0x22)" "\<not> is_word (CHR 0x22)" "\<not> is_label (CHR 0x22)"
  "\<not> is_space CHR ''{''"
  by (simp_all add: is_space_def is_word_def is_label_def is_digit_def)

lemma resource_at_block:
  assumes "w1 \<noteq> []" "list_all is_space w1" "rtype \<noteq> []" "list_all is_word rtype"
    and "w2 \<noteq> []" "list_all is_space w2" "rname \<noteq> []" "list_all is_label rname"
    and "list_all is_space w3" "CHR ''}'' \<notin> set rbody"
  shows "resource_at (block_text w1 rtype w2 rname w3 rbody @ rest)
         = Some ((rtype, rname, rbody), length (block_text w1 rtype w2 rname w3 rbody))"
proof -
  have b: "list_all (\<lambda>c. c \<noteq> CHR ''}'') rbody"
    using assms(10) by (auto simp: list_all_iff)
  note tw = takeWhile_run[OF assms(2) quote_class(1)] takeWhile_run[OF assms(4) quote_class(2)]
    takeWhile_run[OF assms(6) quote_class(1)] takeWhile_run[OF assms(8) quote_class(3)]
    takeWhile_run[OF b, of "CHR ''}''"]
  note dw = dropWhile_run[OF assms(2) quote_class(1)] dropWhile_run[OF assms(4) quote_class(2)]
    dropWhile_run[OF assms(6) quote_class(1)] dropWhile_run[OF assms(8) quote_class(3)]
    dropWhile_run[OF assms(9) quote_class(4)] dropWhile_run[OF b, of "CHR ''}''"]
  show ?thesis
    using assms(1,3,5,7)
    by (simp add: resource_at_def block_text_def Let_def tw dw quote_class)
qed

lemma resource_at_shape:
  assumes "resource_at s = Some ((rtype, rname, rbody), n)"
  shows "\<exists>w1 w2 w3 rest.
           s = block_text w1 rtype w2 rname w3 rbody @ rest
         \<and> n = length (block_text w1 rtype w2 rname w3 rbody)
         \<and> w1 \<noteq> [] \<and> list_all is_space w1 \<and> rtype \<noteq> [] \<and> list_all is_word rtype
         \<and> w2 \<noteq> [] \<and> list_all is_space w2 \<and> rname \<noteq> [] \<and> list_all is_label rname
         \<and> list_all is_space w3 \<and> CHR ''}'' \<notin> set rbody"
proof -
  define r1 where "r1 = drop 8 s"
  define r2 where "r2 = dropWhile is_space r1"
  define r3 where "r3 = dropWhile is_word (tl r2)"
  define r4 where "r4 = dropWhile is_space (tl r3)"
  define r5 where "r5 = dropWhile is_label (tl r4)"
  define r6 where "r6 = dropWhile is_space (tl r5)"
  define r7 where "r7 = dropWhile (\<lambda>c. c \<noteq> CHR ''}'') (tl r6)"
  define w1 where "w1 = takeWhile is_space r1"
  define w2 where "w2 = takeWhile is_space (tl r3)"
  define w3 where "w3 = takeWhile is_space (tl r5)"
  from assms have p: "prefix ''resource'' s"
    and c: "w1 \<noteq> []" "r2 \<noteq> []" "hd r2 = CHR 0x22"
      "rtype = takeWhile is_word (tl r2)" "rtype \<noteq> []" "r3 \<noteq> []" "hd r3 = CHR 0x22"
      "w2 \<noteq> []" "r4 \<noteq> []" "hd r4 = CHR 0x22"
      "rname = takeWhile is_label (tl r4)" "rname \<noteq> []" "r5 \<noteq> []" "hd r5 = CHR 0x22"
      "r6 \<noteq> []" "hd r6 = CHR ''{''"
      "rbody = takeWhile (\<lambda>c. c \<noteq> CHR ''}'') (tl r6)" "r7 \<noteq> []"
    and n: "n = length s - length (tl r7)"
    by (auto simp: resource_at_def Let_def r1_def r2_def r3_def r4_def r5_def r6_def r7_def
        w1_def w2_def w3_def split: if_splits)
  have "hd r7 = CHR ''}''"
    using c(18) hd_dropWhile[of "\<lambda>c. c \<noteq> CHR ''}''" "tl r6"] by (simp add: r7_def)
  with c(18) have e7: "r7 = CHR ''}'' # tl r7" by (cases r7) auto
  have e6: "r6 = CHR ''{'' # rbody @ r7"
    using c(15,16,17) by (cases r6) (auto simp: r7_def)
  have e5: "r5 = CHR 0x22 # w3 @ r6"
    using c(13,14) by (cases r5) (auto simp: r6_def w3_def)
  have e4: "r4 = CHR 0x22 # rname @ r5"
    using c(9,10,11) by (cases r4) (auto simp: r5_def)
  have e3: "r3 = CHR 0x22 # w2 @ r4"
    using c(6,7) by (cases r3) (auto simp: r4_def w2_def)
  have e2: "r2 = CHR 0x22 # rtype @ r3"
    using c(2,3,4) by (cases r2) (auto simp: r3_def)
  have e1: "r1 = w1 @ r2"
    by (simp add: w1_def r2_def)
  from p obtain t where "s = ''resource'' @ t" by (auto simp: prefix_def)
  then have e0: "s = ''resource'' @ r1" by (simp add: r1_def)
  have s: "s = block_text w1 rtype w2 rname w3 rbody @ tl r7"
    by (subst e0, subst e1, subst e2, subst e3, subst e4, subst e5, subst e6, subst e7)
      (simp add: block_text_def)
  have "list_all is_space w1" "list_all is_space w2" "list_all is_space w3"
    "list_all is_word rtype" "list_all is_label rname" "CHR ''}'' \<notin> set rbody"
    using c(4,11,17) by (auto simp: w1_def w2_def w3_def list_all_iff dest: set_takeWhileD)
  moreover have "n = length (block_text w1 rtype w2 rname w3 rbody)"
    using n by (subst (asm) s) simp
  ultimately show ?thesis
    using s c(1,5,8,12) by blast
qed

lemma resource_gap:
  "CHR ''r'' \<notin> set pre \<Longrightarrow> i < length pre \<Longrightarrow> resource_at (drop i (pre @ s)) = None"
proof -
  assume a: "CHR ''r'' \<notin> set pre" "i < length pre"
  then have "drop i (pre @ s) = pre ! i # drop (Suc i) (pre @ s)"
    by (simp add: Cons_nth_drop_Suc nth_append)
  moreover have "pre ! i \<noteq> CHR ''r''" using a by (metis nth_mem)
  ultimately show ?thesis by (simp add: resource_at_def)
qed

lemma finditer_match:
  "i < length s \<Longrightarrow> at (drop i s) \<noteq> None \<Longrightarrow> finditer at 0 s \<noteq> []"
proof (induction s arbitrary: i)
  case Nil
  then show ?case by simp
next
  case (Cons c s)
  show ?case
  proof (cases "at (c # s)")
    case None
    with Cons.prems obtain j where "i = Suc j" by (cases i) auto
    with Cons.prems Cons.IH[of j] None show ?thesis by simp
  next
    case (Some a)
    then show ?thesis by (cases a) simp
  qed
qed

lemma resource_blocks_empty:
  "(resource_blocks s = []) = (\<forall>i < length s. resource_at (drop i s) = None)"
  unfolding resource_blocks_def
  using finditer_none[of s resource_at] finditer_match[of _ s resource_at] by blast

lemma resource_blocks_first:
  assumes "\<forall>i < length pre. resource_at (drop i (pre @ s)) = None"
    and "resource_at s = Some (x, n)"
  shows "resource_blocks (pre @ s) = x # resource_blocks (drop n s)"
  unfolding resource_blocks_def
  using assms resource_at_pos[OF assms(2)]
  by (intro finditer_first) simp_all

definition two_block_segs :: "segment list" where
  "two_block_segs =
     [Lit (''# web unit'' @ [CHR 0x0A] @ ''resource '' @ [CHR 0x22] @ ''aws_instance''
           @ [CHR 0x22] @ '' '' @ [CHR 0x22]),
      Ph ''name'',
      Lit ([CHR 0x22] @ '' {'' @ [CHR 0x0A] @ ''  ami = '' @ [CHR 0x22] @ ''ami-123''
           @ [CHR 0x22, CHR 0x0A] @ ''}'' @ [CHR 0x0A, CHR 0x0A] @ ''resource '' @ [CHR 0x22]
           @ ''aws_eip'' @ [CHR 0x22] @ '' '' @ [CHR 0x22] @ ''ip'' @ [CHR 0x22] @ '' {''
           @ [CHR 0x0A] @ ''  vpc = true'' @ [CHR 0x0A] @ ''}'' @ [CHR 0x0A])]"

definition two_block_module :: TerraformModule where
  "two_block_module = nested_module [nested_var ''name'' VNone] (template_text two_block_segs)"

definition two_block_rendered :: string where
  "two_block_rendered =
     ''# web unit'' @ [CHR 0x0A]
     @ block_text '' '' ''aws_instance'' '' '' ''web'' '' ''
         ([CHR 0x0A] @ ''  ami = '' @ [CHR 0x22] @ ''ami-123'' @ [CHR 0x22, CHR 0x0A])
     @ [CHR 0x0A, CHR 0x0A]
     @ block_text '' '' ''aws_eip'' '' '' ''ip'' '' '' ([CHR 0x0A] @ ''  vpc = true'' @ [CHR 0x0A])
     @ [CHR 0x0A]"

text \<open>
  C5. When rendering succeeds, the output of \<open>export_plan\<close> ends, if the rendered text
  has \<open>N \<ge> 1\<close> resource blocks, with the line \<open>Plan: N to add, 0 to change, 0 to destroy.\<close>
  and otherwise with the notice that no resource blocks were detected, an empty line and
  the rendered text; in both cases the labelled section with the full rendered text
  follows, and the store is the one \<open>generate_tf\<close> returned. The blocks counted are the
  matches of the block pattern, found from left to right: there is none exactly when the
  pattern matches at no position of the rendered text; otherwise the first block is the
  match at the leftmost position that has one, and the others are the blocks of the text
  after that match.
\<close>

theorem export_plan_summary:
  assumes "generate_tf st ref vars = (Inr rendered, st')"
  shows "(\<exists>head.
       (resource_blocks rendered \<noteq> [] \<longrightarrow>
          export_plan st ts ref vars
            = (Inr (head @ ''Plan: '' @ str_int (int (length (resource_blocks rendered)))
                    @ '' to add, 0 to change, 0 to destroy.'' @ plan_footer rendered), st'))
     \<and> (resource_blocks rendered = [] \<longrightarrow>
          export_plan st ts ref vars
            = (Inr (head @ ''# (no resource blocks detected in rendered template)''
                    @ [CHR 0x0A, CHR 0x0A] @ rendered @ plan_footer rendered), st')))
   \<and> ((resource_blocks rendered = [])
        = (\<forall>i < length rendered. resource_at (drop i rendered) = None))
   \<and> (\<forall>pre s x n. rendered = pre @ s
          \<and> (\<forall>i < length pre. resource_at (drop i rendered) = None)
          \<and> resource_at s = Some (x, n)
        \<longrightarrow> resource_blocks rendered = x # resource_blocks (drop n s))"
  using export_plan_text[OF assms, of ts] resource_blocks_empty[of rendered]
    resource_blocks_first
  by blast

theorem export_plan_summary_witness:
  "(\<exists>head. fst (export_plan [module_row two_block_module] ''2024-01-01T00:00:00Z'' ''nested''
                    [(''name'', VStr ''web'')])
            = Inr (head @ ''Plan: 2 to add, 0 to change, 0 to destroy.''
                   @ plan_footer two_block_rendered))
   \<and> resource_blocks two_block_rendered
       = [(''aws_instance'', ''web'',
           [CHR 0x0A] @ ''  ami = '' @ [CHR 0x22] @ ''ami-123'' @ [CHR 0x22, CHR 0x0A]),
          (''aws_eip'', ''ip'', [CHR 0x0A] @ ''  vpc = true'' @ [CHR 0x0A])]
   \<and> (\<exists>head. fst (export_plan gen_test_store ''2024-01-01T00:00:00Z'' ''gen_test''
                    [(''name'', VStr ''my-server''), (''ami_id'', VStr ''ami-123'')])
            = Inr (head @ ''Plan: 1 to add, 0 to change, 0 to destroy.''
                   @ plan_footer (simple_rendered ''t3.micro'')))
   \<and> (\<exists>head. fst (export_plan [module_row tagged_module] ''2024-01-01T00:00:00Z'' ''nested''
                      [(''zone'', VStr ''eu'')])
              = Inr (head @ ''# (no resource blocks detected in rendered template)''
                     @ [CHR 0x0A, CHR 0x0A] @ ''tag = ${var.opt} # eu''
                     @ plan_footer ''tag = ${var.opt} # eu''))"
proof -
  let ?w = "[(''name'', VStr ''web'')]"
  let ?v = "[(''name'', VStr ''my-server''), (''ami_id'', VStr ''ami-123'')]"
  let ?z = "[(''zone'', VStr ''eu'')]"
  let ?b1 = "block_text '' '' ''aws_instance'' '' '' ''web'' '' ''
               ([CHR 0x0A] @ ''  ami = '' @ [CHR 0x22] @ ''ami-123'' @ [CHR 0x22, CHR 0x0A])"
  let ?b2 = "block_text '' '' ''aws_eip'' '' '' ''ip'' '' '' ([CHR 0x0A] @ ''  vpc = true'' @ [CHR 0x0A])"
  have "fst (generate_tf [module_row two_block_module] ''nested'' ?w) = Inr two_block_rendered"
    by code_simp
  then have g0: "generate_tf [module_row two_block_module] ''nested'' ?w
                 = (Inr two_block_rendered, snd (generate_tf [module_row two_block_module] ''nested'' ?w))"
    by (metis prod.collapse)
  have "fst (generate_tf gen_test_store ''gen_test'' ?v) = Inr (simple_rendered ''t3.micro'')"
    by code_simp
  then have g1: "generate_tf gen_test_store ''gen_test'' ?v
                 = (Inr (simple_rendered ''t3.micro''), snd (generate_tf gen_test_store ''gen_test'' ?v))"
    by (metis prod.collapse)
  have "fst (generate_tf [module_row tagged_module] ''nested'' ?z) = Inr ''tag = ${var.opt} # eu''"
    by code_simp
  then have g2: "generate_tf [module_row tagged_module] ''nested'' ?z
                 = (Inr ''tag = ${var.opt} # eu'',
                    snd (generate_tf [module_row tagged_module] ''nested'' ?z))"
    by (metis prod.collapse)
  note t0 = export_plan_summary [OF g0, of "''2024-01-01T00:00:00Z''"]

  have s1: "resource_at (?b1 @ [CHR 0x0A, CHR 0x0A] @ ?b2 @ [CHR 0x0A])
            = Some ((''aws_instance'', ''web'',
                     [CHR 0x0A] @ ''  ami = '' @ [CHR 0x22] @ ''ami-123'' @ [CHR 0x22, CHR 0x0A]),
                    length ?b1)"
    by (intro resource_at_block) (simp_all add: is_space_def is_word_def is_label_def is_digit_def)
  let ?pre = "''# web unit'' @ [CHR 0x0A]"
  let ?s = "?b1 @ [CHR 0x0A, CHR 0x0A] @ ?b2 @ [CHR 0x0A]"
  have e: "two_block_rendered = ?pre @ ?s"
    by (simp add: two_block_rendered_def)
  have "\<forall>i < length ?pre. resource_at (drop i (?pre @ ?s)) = None"
    by (intro allI impI resource_gap) simp_all
  then have gap: "\<forall>i < length ?pre. resource_at (drop i two_block_rendered) = None"
    by (simp only: e)
  from t0 have "two_block_rendered = ?pre @ ?s
          \<and> (\<forall>i < length ?pre. resource_at (drop i two_block_rendered) = None)
          \<and> resource_at ?s = Some ((''aws_instance'', ''web'',
                     [CHR 0x0A] @ ''  ami = '' @ [CHR 0x22] @ ''ami-123'' @ [CHR 0x22, CHR 0x0A]),
                    length ?b1)
        \<longrightarrow> resource_blocks two_block_rendered
            = (''aws_instance'', ''web'',
               [CHR 0x0A] @ ''  ami = '' @ [CHR 0x22] @ ''ami-123'' @ [CHR 0x22, CHR 0x0A])
              # resource_blocks (drop (length ?b1) ?s)"
    by blast
  with e gap s1 have h: "resource_blocks two_block_rendered
            = (''aws_instance'', ''web'',
               [CHR 0x0A] @ ''  ami = '' @ [CHR 0x22] @ ''ami-123'' @ [CHR 0x22, CHR 0x0A])
              # resource_blocks (drop (length ?b1) ?s)"
    by blast
  have "resource_blocks (drop (length ?b1) ?s)
        = [(''aws_eip'', ''ip'', [CHR 0x0A] @ ''  vpc = true'' @ [CHR 0x0A])]"
    by code_simp
  with h have b: "resource_blocks two_block_rendered
       = [(''aws_instance'', ''web'',
           [CHR 0x0A] @ ''  ami = '' @ [CHR 0x22] @ ''ami-123'' @ [CHR 0x22, CHR 0x0A]),
          (''aws_eip'', ''ip'', [CHR 0x0A] @ ''  vpc = true'' @ [CHR 0x0A])]"
    by simp
  then have b0: "resource_blocks two_block_rendered \<noteq> []"
    "str_int (int (length (resource_blocks two_block_rendered))) = ''2''"
    by (simp_all add: str_int_def str_nat.simps digit_char_def)
  from t0 b0 obtain h0 where
    "fst (export_plan [module_row two_block_module] ''2024-01-01T00:00:00Z'' ''nested'' ?w)
      = Inr (h0 @ ''Plan: 2 to add, 0 to change, 0 to destroy.'' @ plan_footer two_block_rendered)"
    by auto
  moreover
  have b1: "resource_blocks (simple_rendered ''t3.micro'') \<noteq> []"
    "str_int (int (length (resource_blocks (simple_rendered ''t3.micro'')))) = ''1''"
    by code_simp+
  have b2: "resource_blocks ''tag = ${var.opt} # eu'' = []"
    by code_simp
  from export_plan_summary [OF g1, of "''2024-01-01T00:00:00Z''"]
  obtain h1 where "fst (export_plan gen_test_store ''2024-01-01T00:00:00Z'' ''gen_test'' ?v)
      = Inr (h1 @ ''Plan: 1 to add, 0 to change, 0 to destroy.''
             @ plan_footer (simple_rendered ''t3.micro''))"
    using b1 by auto
  moreover from export_plan_summary [OF g2, of "''2024-01-01T00:00:00Z''"]
  obtain h2 where "fst (export_plan [module_row tagged_module] ''2024-01-01T00:00:00Z'' ''nested'' ?z)
      = Inr (h2 @ ''# (no resource blocks detected in rendered template)''
             @ [CHR 0x0A, CHR 0x0A] @ ''tag = ${var.opt} # eu''
             @ plan_footer ''tag = ${var.opt} # eu'')"
    using b2 by auto
  ultimately show ?thesis using b by blast
qed

section \<open>Verification: the store round trip\<close>



declare scan_string.simps [simp del]

lemma hex_val_hex_char: "d < 16 \<Longrightarrow> hex_val (hex_char d) = Some d"
proof -
  assume "d < 16"
  then consider "d = 0" | "d = 1" | "d = 2" | "d = 3" | "d = 4" | "d = 5" | "d = 6" | "d = 7"
    | "d = 8" | "d = 9" | "d = 10" | "d = 11" | "d = 12" | "d = 13" | "d = 14" | "d = 15"
    by atomize_elim arith
  then show ?thesis
    by cases (simp_all add: hex_val_def hex_char_def)
qed

lemma hex4_escape:
  assumes "n < 256"
  shows "hex4 (CHR ''0'' # CHR ''0'' # hex_char (n div 16) # hex_char (n mod 16) # rest) = Some n"
proof -
  have "n div 16 < 16" using assms by simp
  then have "hex_val (hex_char (n div 16)) = Some (n div 16)"
    "hex_val (hex_char (n mod 16)) = Some (n mod 16)"
    by (simp_all add: hex_val_hex_char)
  moreover have "hex_val CHR ''0'' = Some 0" by (simp add: hex_val_def)
  ultimately show ?thesis by (simp add: hex4_def)
qed

lemma scan_string_quote: "scan_string acc (CHR 0x22 # rest) = Some (acc, rest)"
  by (subst scan_string.simps) simp

lemma scan_string_plain:
  "c \<noteq> CHR 0x22 \<Longrightarrow> c \<noteq> CHR 0x5C \<Longrightarrow> 32 \<le> (of_char c :: nat) \<Longrightarrow>
   scan_string acc (c # t) = scan_string (acc @ [c]) t"
  by (subst scan_string.simps) simp

lemma scan_string_escape:
  "e \<noteq> CHR ''u'' \<Longrightarrow> unescape e = Some c \<Longrightarrow>
   scan_string acc (CHR 0x5C # e # t) = scan_string (acc @ [c]) t"
  by (subst scan_string.simps) simp

lemma scan_string_unicode:
  assumes "(of_char c :: nat) < 128"
  shows "scan_string acc (CHR 0x5C # CHR ''u'' # CHR ''0'' # CHR ''0''
           # hex_char ((of_char c :: nat) div 16) # hex_char ((of_char c :: nat) mod 16) # t)
         = scan_string (acc @ [c]) t"
proof -
  have "(of_char c :: nat) < 256" using assms by simp
  from hex4_escape[OF this] assms show ?thesis
    by (subst scan_string.simps) (simp add: utf8_def)
qed

lemma esc_char_ctl:
  assumes "c \<noteq> CHR 0x22" "c \<noteq> CHR 0x5C" "c \<noteq> CHR 0x0A" "c \<noteq> CHR 0x0D" "c \<noteq> CHR 0x09"
    "c \<noteq> CHR 0x0C" "c \<noteq> CHR 0x08" "(of_char c :: nat) < 32 \<or> c = CHR 0x7F"
  shows "json_esc_char c = [CHR 0x5C, CHR ''u'', CHR ''0'', CHR ''0'',
           hex_char ((of_char c :: nat) div 16), hex_char ((of_char c :: nat) mod 16)]"
  using assms by (simp add: json_esc_char_def)

lemma esc_char_plain:
  assumes "c \<noteq> CHR 0x22" "c \<noteq> CHR 0x5C" "32 \<le> (of_char c :: nat)" "c \<noteq> CHR 0x7F"
  shows "json_esc_char c = [c]"
proof -
  have "c \<noteq> CHR 0x0A" "c \<noteq> CHR 0x0D" "c \<noteq> CHR 0x09" "c \<noteq> CHR 0x0C" "c \<noteq> CHR 0x08"
    using assms(3) by fastforce+
  with assms show ?thesis by (simp add: json_esc_char_def)
qed

lemma scan_string_esc_char:
  "scan_string acc (json_esc_char c @ t) = scan_string (acc @ [c]) t"
proof -
  consider (quote) "c = CHR 0x22" | (bs) "c = CHR 0x5C" | (nl) "c = CHR 0x0A" | (cr) "c = CHR 0x0D"
    | (tab) "c = CHR 0x09" | (ff) "c = CHR 0x0C" | (bsp) "c = CHR 0x08"
    | (ctl) "c \<noteq> CHR 0x22" "c \<noteq> CHR 0x5C" "c \<noteq> CHR 0x0A" "c \<noteq> CHR 0x0D" "c \<noteq> CHR 0x09"
        "c \<noteq> CHR 0x0C" "c \<noteq> CHR 0x08" "(of_char c :: nat) < 32 \<or> c = CHR 0x7F"
    | (plain) "c \<noteq> CHR 0x22" "c \<noteq> CHR 0x5C" "\<not> (of_char c :: nat) < 32" "c \<noteq> CHR 0x7F"
    by blast
  then show ?thesis
  proof cases
    case quote
    then show ?thesis by (simp add: json_esc_char_def scan_string_escape unescape_def)
  next
    case bs
    then show ?thesis by (simp add: json_esc_char_def scan_string_escape unescape_def)
  next
    case nl
    then show ?thesis by (simp add: json_esc_char_def scan_string_escape unescape_def)
  next
    case cr
    then show ?thesis by (simp add: json_esc_char_def scan_string_escape unescape_def)
  next
    case tab
    then show ?thesis by (simp add: json_esc_char_def scan_string_escape unescape_def)
  next
    case ff
    then show ?thesis by (simp add: json_esc_char_def scan_string_escape unescape_def)
  next
    case bsp
    then show ?thesis by (simp add: json_esc_char_def scan_string_escape unescape_def)
  next
    case ctl
    from ctl(8) have "(of_char c :: nat) < 128"
    proof
      assume "(of_char c :: nat) < 32"
      then show ?thesis by simp
    next
      assume "c = CHR 0x7F"
      then show ?thesis by simp
    qed
    from scan_string_unicode[OF this] show ?thesis
      by (simp add: esc_char_ctl[OF ctl])
  next
    case plain
    then have "32 \<le> (of_char c :: nat)" by simp
    with plain show ?thesis by (simp add: esc_char_plain scan_string_plain)
  qed
qed

lemma scan_string_json:
  "scan_string acc (concat (map json_esc_char s) @ CHR 0x22 # rest) = Some (acc @ s, rest)"
proof (induction s arbitrary: acc)
  case Nil
  then show ?case by (simp add: scan_string_quote)
next
  case (Cons c s)
  then show ?case by (simp add: scan_string_esc_char)
qed

lemma scan_string_json_str:
  "scan_string [] (tl (json_str s @ rest)) = Some (s, rest)"
  using scan_string_json[of "[]" s rest] by (simp add: json_str_def)

















































end
